theory Spec2Isabelle
  imports Complex_Main
begin

section \<open>Conventions of the embedding\<close>

text \<open>
  The pipeline is TypeScript. A JavaScript \<^verbatim>\<open>number\<close> is an IEEE double; it is modelled as
  the real number that the double stands for. NaN and the infinities are not values of the model
  (the activity feed is JSON, which cannot carry them). Where the code compares stored values,
  or computes on millisecond timestamps and counts (integers below \<open>2\<^sup>5\<^sup>3\<close>), the operation on
  reals is the operation on doubles. The sums, products and quotients of the aggregation buffer
  are rounded as the machine rounds them, by \<open>fl\<close> below. The paper trader's arithmetic is
  left exact: what is stated of it compares stored values or is evaluated at integers, where
  doubles do not round. A field that may be absent (\<^verbatim>\<open>undefined\<close>) is an \<open>option\<close>.
  \<^verbatim>\<open>Date.now()\<close> is an argument \<open>now\<close> of the function that reads it.

  A JavaScript \<^verbatim>\<open>Map\<close> iterates in insertion order and holds each key once. It is modelled as
  an association list in insertion order: \<^verbatim>\<open>set\<close> overwrites in place or appends,
  \<^verbatim>\<open>delete\<close> removes the key. The representation invariant is that the keys are distinct.
\<close>

type_synonym number = real

type_synonym ('k, 'v) js_map = "('k \<times> 'v) list"

definition Map_get :: "('k, 'v) js_map \<Rightarrow> 'k \<Rightarrow> 'v option" where
  "Map_get m k = map_of m k"

definition Map_has :: "('k, 'v) js_map \<Rightarrow> 'k \<Rightarrow> bool" where
  "Map_has m k = (map_of m k \<noteq> None)"

primrec Map_set :: "'k \<Rightarrow> 'v \<Rightarrow> ('k, 'v) js_map \<Rightarrow> ('k, 'v) js_map" where
  "Map_set k v [] = [(k, v)]"
| "Map_set k v (e # es) = (if fst e = k then (k, v) # es else e # Map_set k v es)"

definition Map_delete :: "'k \<Rightarrow> ('k, 'v) js_map \<Rightarrow> ('k, 'v) js_map" where
  "Map_delete k m = filter (\<lambda>e. fst e \<noteq> k) m"

definition Map_ok :: "('k, 'v) js_map \<Rightarrow> bool" where
  "Map_ok m = distinct (map fst m)"

text \<open>\<^verbatim>\<open>x || 0\<close> on a numeric field: an absent value and 0 both give 0.\<close>

definition or0 :: "number option \<Rightarrow> number" where
  "or0 x = (case x of None \<Rightarrow> 0 | Some v \<Rightarrow> v)"

section \<open>Double arithmetic\<close>

text \<open>
  IEEE 754 binary64, rounding to nearest with ties to even: the magnitude is scaled by powers of
  two until its integer part has 53 bits, rounded to an integer (a tie goes to the even one) and
  scaled back. This is the machine's result whenever that result is a normal double, that is,
  when its magnitude is at least 2 to the power -1022 and at most the largest double; overflow
  and subnormal results are outside the model. The fuel of \<open>scale\<close> covers every sum, product and
  quotient of two doubles.
\<close>

definition round_half_even :: "real \<Rightarrow> int" where
  "round_half_even x =
     (let f = \<lfloor>x\<rfloor> in
      if x - of_int f < 1/2 then f
      else if x - of_int f > 1/2 then f + 1
      else if even f then f else f + 1)"

fun scale :: "nat \<Rightarrow> real \<Rightarrow> int \<Rightarrow> real \<times> int" where
  "scale 0 m e = (m, e)"
| "scale (Suc fuel) m e =
     (if m \<ge> 9007199254740992 then scale fuel (m / 2) (e + 1)
      else if m < 4503599627370496 then scale fuel (m * 2) (e - 1)
      else (m, e))"

definition pow2 :: "int \<Rightarrow> real" where
  "pow2 e = (if e \<ge> 0 then 2 ^ nat e else 1 / 2 ^ nat (- e))"

definition fl :: "real \<Rightarrow> number" where
  "fl x =
     (if x = 0 then 0
      else case scale 2200 \<bar>x\<bar> 0 of
             (m, e) \<Rightarrow> sgn x * of_int (round_half_even m) * pow2 e)"

text \<open>The operators \<^verbatim>\<open>+\<close>, \<^verbatim>\<open>*\<close> and \<^verbatim>\<open>/\<close> on doubles: the exact result, rounded.\<close>

definition dadd :: "number \<Rightarrow> number \<Rightarrow> number" where
  "dadd x y = fl (x + y)"

definition dmul :: "number \<Rightarrow> number \<Rightarrow> number" where
  "dmul x y = fl (x * y)"

definition ddiv :: "number \<Rightarrow> number \<Rightarrow> number" where
  "ddiv x y = fl (x / y)"

section \<open>Deduplication cache (services/activityQueue.ts)\<close>

record InMemoryDedupCache =
  cache :: "(string, number) js_map"
  ttlMs :: number
  maxEntries :: number

text \<open>The constructor clamps both parameters to at least 1.\<close>

definition new_InMemoryDedupCache :: "number \<Rightarrow> number \<Rightarrow> InMemoryDedupCache" where
  "new_InMemoryDedupCache ttl maxE = \<lparr>cache = [], ttlMs = max ttl 1, maxEntries = max maxE 1\<rparr>"

text \<open>
  \<^verbatim>\<open>evictExpired\<close> walks the entries of the map and deletes, from the map itself, each key whose
  timestamp is more than \<open>ttlMs\<close> in the past. The first list is what remains to be visited,
  the second the map being mutated.
\<close>

fun evict_loop :: "number \<Rightarrow> number \<Rightarrow> (string \<times> number) list \<Rightarrow> (string, number) js_map
    \<Rightarrow> (string, number) js_map" where
  "evict_loop now ttl [] m = m"
| "evict_loop now ttl ((k, t) # es) m =
     evict_loop now ttl es (if now - t > ttl then Map_delete k m else m)"

definition evictExpired :: "number \<Rightarrow> InMemoryDedupCache \<Rightarrow> InMemoryDedupCache" where
  "evictExpired now s = s\<lparr>cache := evict_loop now (ttlMs s) (cache s) (cache s)\<rparr>"

text \<open>
  \<^verbatim>\<open>checkAndRemember\<close>: sweep, return false if the key is still there, otherwise store
  \<open>(key, now)\<close> and, when the map has grown beyond \<open>maxEntries\<close>, delete the first key of
  the iteration order. The source guards that deletion with \<^verbatim>\<open>if (oldestKey)\<close>, a truthiness
  test: it is skipped for an empty map (\<^verbatim>\<open>undefined\<close>) and also for the empty string.
\<close>

definition evictOldest :: "(string, number) js_map \<Rightarrow> (string, number) js_map" where
  "evictOldest m = (case m of [] \<Rightarrow> m
     | (oldestKey, _) # _ \<Rightarrow> if oldestKey \<noteq> [] then Map_delete oldestKey m else m)"

definition checkAndRemember :: "string \<Rightarrow> number \<Rightarrow> InMemoryDedupCache \<Rightarrow> bool \<times> InMemoryDedupCache" where
  "checkAndRemember key now s =
     (let s1 = evictExpired now s in
      if Map_has (cache s1) key then (False, s1)
      else
        let c2 = Map_set key now (cache s1);
            c3 = (if real (length c2) > maxEntries s1 then evictOldest c2 else c2)
        in (True, s1\<lparr>cache := c3\<rparr>))"

definition size_cache :: "number \<Rightarrow> InMemoryDedupCache \<Rightarrow> nat \<times> InMemoryDedupCache" where
  "size_cache now s = (let s1 = evictExpired now s in (length (cache s1), s1))"

text \<open>The entries of the cache that have not expired at \<open>now\<close>, in insertion order.\<close>

definition live_entries :: "number \<Rightarrow> InMemoryDedupCache \<Rightarrow> (string \<times> number) list" where
  "live_entries now s = filter (\<lambda>e. \<not> (now - snd e > ttlMs s)) (cache s)"


section \<open>Activities\<close>

text \<open>
  Modelled from the spec: \<^verbatim>\<open>interfaces/User.ts\<close> (the declaration of
  \<^verbatim>\<open>UserActivityInterface\<close>) is not among the sources. The record has the fields that section 3 of
  the specification lists and that the pipeline reads. \<^verbatim>\<open>QueueActivity\<close> adds
  \<^verbatim>\<open>userAddress\<close>; the monitor also stores \<^verbatim>\<open>_detectedAt\<close>. Fields the code guards with
  \<^verbatim>\<open>||\<close> or \<^verbatim>\<open>?.\<close> are optional. The type parameter is the type of \<^verbatim>\<open>timestamp\<close>: whatever
  the feed sent, or a number of milliseconds once the monitor has normalised it.
\<close>

record 'ts Activity =
  transactionHash :: "string option"
  userAddress :: string
  conditionId :: string
  asset :: string
  side :: "string option"
  price :: "number option"
  size' :: "number option"
  usdcSize :: "number option"
  timestamp :: 'ts
  slug :: "string option"
  eventSlug :: "string option"
  detectedAt :: "number option"

type_synonym QueueActivity = "number Activity"

section \<open>Activity distributor (services/activityDistributor.ts)\<close>

text \<open>
  A worker endpoint is a \<^verbatim>\<open>MessagePort\<close> or a \<^verbatim>\<open>Worker\<close>; the number tells the objects
  apart. Both have \<^verbatim>\<open>postMessage\<close>, so \<^verbatim>\<open>send\<close> always posts. The messages posted are
  recorded, in order, in the field \<open>sent\<close>.
\<close>

datatype WorkerEndpoint = MessagePort nat | Worker nat

datatype message = ActivityMessage QueueActivity | ShutdownMessage

record WorkerPort =
  id' :: number
  endpoint :: WorkerEndpoint

record distributor =
  workerPorts :: "WorkerPort list"
  roundRobinIndex :: nat
  backlog :: "QueueActivity list"
  sent :: "(WorkerEndpoint \<times> message) list"

definition send :: "WorkerEndpoint \<Rightarrow> message \<Rightarrow> distributor \<Rightarrow> distributor" where
  "send e msg s = s\<lparr>sent := sent s @ [(e, msg)]\<rparr>"

definition pickWorker :: "distributor \<Rightarrow> WorkerPort option \<times> distributor" where
  "pickWorker s =
     (if length (workerPorts s) = 0 then (None, s)
      else (Some (workerPorts s ! (roundRobinIndex s mod length (workerPorts s))),
            s\<lparr>roundRobinIndex := (roundRobinIndex s + 1) mod length (workerPorts s)\<rparr>))"

text \<open>
  The loop of \<^verbatim>\<open>flushBacklog\<close>. Its \<^verbatim>\<open>if (!activity) break\<close> never fires: the backlog holds
  objects. The backlog gets shorter on every round.
\<close>

function flushBacklog :: "distributor \<Rightarrow> distributor" where
  "flushBacklog s =
     (case backlog s of
        [] \<Rightarrow> s
      | activity # rest \<Rightarrow>
          if length (workerPorts s) = 0 then s
          else
            (case pickWorker (s\<lparr>backlog := rest\<rparr>) of
               (None, s') \<Rightarrow> flushBacklog s'
             | (Some worker, s') \<Rightarrow>
                 flushBacklog (send (endpoint worker) (ActivityMessage activity) s')))"
  by pat_completeness auto
termination
  by (relation "measure (\<lambda>s. length (backlog s))")
    (auto simp: pickWorker_def send_def split: if_splits)

definition registerWorkerEndpoint :: "number \<Rightarrow> WorkerEndpoint \<Rightarrow> distributor \<Rightarrow> distributor" where
  "registerWorkerEndpoint i e s =
     flushBacklog (s\<lparr>workerPorts := workerPorts s @ [\<lparr>id' = i, endpoint = e\<rparr>]\<rparr>)"

text \<open>\<^verbatim>\<open>findIndex\<close> and \<^verbatim>\<open>splice(idx, 1)\<close>: the first port with that id is removed.\<close>

fun remove_first_id :: "number \<Rightarrow> WorkerPort list \<Rightarrow> WorkerPort list" where
  "remove_first_id i [] = []"
| "remove_first_id i (w # ws) = (if id' w = i then ws else w # remove_first_id i ws)"

definition unregisterWorkerEndpoint :: "number \<Rightarrow> distributor \<Rightarrow> distributor" where
  "unregisterWorkerEndpoint i s = s\<lparr>workerPorts := remove_first_id i (workerPorts s)\<rparr>"

definition publishActivityToWorkers :: "QueueActivity \<Rightarrow> distributor \<Rightarrow> distributor" where
  "publishActivityToWorkers activity s =
     (case pickWorker s of
        (None, s') \<Rightarrow> s'\<lparr>backlog := backlog s' @ [activity]\<rparr>
      | (Some worker, s') \<Rightarrow> send (endpoint worker) (ActivityMessage activity) s')"

definition broadcastShutdown :: "distributor \<Rightarrow> distributor" where
  "broadcastShutdown s = foldl (\<lambda>d w. send (endpoint w) ShutdownMessage d) s (workerPorts s)"

definition resetDistributor :: "distributor \<Rightarrow> distributor" where
  "resetDistributor s = s\<lparr>workerPorts := [], roundRobinIndex := 0, backlog := []\<rparr>"

section \<open>Executor worker (workers/executorWorker.ts)\<close>

subsection \<open>Paper trader\<close>

text \<open>
  The class is the same, line for line, in \<^verbatim>\<open>services/tradeExecutor.ts\<close>. A position object
  is stored under its \<^verbatim>\<open>conditionId\<close>; mutating the object found in the map and storing it
  again is \<open>Map_set\<close> at its key.
\<close>

record position =
  p_conditionId :: string
  p_asset :: string
  p_size :: number
  p_invested :: number
  p_avgPrice :: number

record PaperTrader =
  balance :: number
  positions :: "(string, position) js_map"

definition new_PaperTrader :: "number \<Rightarrow> PaperTrader" where
  "new_PaperTrader initialUsd = \<lparr>balance = initialUsd, positions = []\<rparr>"

definition getBalance :: "PaperTrader \<Rightarrow> number" where
  "getBalance pt = balance pt"

definition getUserPortfolioValue :: "PaperTrader \<Rightarrow> number" where
  "getUserPortfolioValue pt = foldl (\<lambda>total e. total + p_invested (snd e)) 0 (positions pt)"

definition executeTrade :: "'ts Activity \<Rightarrow> PaperTrader \<Rightarrow> bool \<times> PaperTrader" where
  "executeTrade trade pt =
     (let usdc = or0 (usdcSize trade);
          sz = or0 (size' trade);
          pr = or0 (price trade);
          cid = conditionId trade
      in
        if side trade = Some ''BUY'' then
          if balance pt < usdc then (False, pt)
          else
            let existing = (case Map_get (positions pt) cid of
                              Some e \<Rightarrow> e
                            | None \<Rightarrow> \<lparr>p_conditionId = cid, p_asset = asset trade, p_size = 0,
                                       p_invested = 0, p_avgPrice = 0\<rparr>);
                existing1 = existing\<lparr>p_size := p_size existing + sz\<rparr>;
                existing2 = existing1\<lparr>p_invested := p_invested existing1 + usdc\<rparr>;
                existing3 = existing2\<lparr>p_avgPrice :=
                   (if p_size existing2 > 0 then p_invested existing2 / p_size existing2 else pr)\<rparr>
            in (True, \<lparr>balance = balance pt - usdc, positions = Map_set cid existing3 (positions pt)\<rparr>)
        else
          (case Map_get (positions pt) cid of
             None \<Rightarrow> (False, pt)
           | Some existing \<Rightarrow>
               if p_size existing < sz then (False, pt)
               else
                 let existing1 = existing\<lparr>p_size := p_size existing - sz\<rparr>;
                     existing2 = existing1\<lparr>p_invested := p_invested existing1 - usdc\<rparr>
                 in (True, \<lparr>balance = balance pt + usdc,
                            positions = (if p_size existing2 = 0 then Map_delete cid (positions pt)
                                         else Map_set cid existing2 (positions pt))\<rparr>)))"

subsection \<open>Aggregation buffer\<close>

definition TRADE_AGGREGATION_MIN_TOTAL_USD :: number where
  "TRADE_AGGREGATION_MIN_TOTAL_USD = 1"

record AggregatedTrade =
  agg_userAddress :: string
  agg_conditionId :: string
  agg_asset :: string
  agg_side :: string
  agg_slug :: "string option"
  agg_eventSlug :: "string option"
  trades :: "QueueActivity list"
  totalUsdcSize :: number
  averagePrice :: number
  firstTradeTime :: number
  lastTradeTime :: number

text \<open>A template literal prints an absent value as \<^verbatim>\<open>undefined\<close>.\<close>

definition getAggregationKey :: "QueueActivity \<Rightarrow> string" where
  "getAggregationKey trade =
     userAddress trade @ '':'' @ conditionId trade @ '':'' @ asset trade @ '':'' @
     (case side trade of None \<Rightarrow> ''undefined'' | Some sd \<Rightarrow> sd)"

text \<open>The \<^verbatim>\<open>reduce\<close> that recomputes the notional-weighted total, starting from 0.\<close>

definition totalValue :: "QueueActivity list \<Rightarrow> number" where
  "totalValue ts = foldl (\<lambda>sum t. dadd sum (dmul (or0 (usdcSize t)) (or0 (price t)))) 0 ts"

definition addToAggregationBuffer :: "QueueActivity \<Rightarrow> number
    \<Rightarrow> (string, AggregatedTrade) js_map \<Rightarrow> (string, AggregatedTrade) js_map" where
  "addToAggregationBuffer trade now buf =
     (let key = getAggregationKey trade in
      case Map_get buf key of
        Some existing \<Rightarrow>
          let e1 = existing\<lparr>trades := trades existing @ [trade]\<rparr>;
              e2 = e1\<lparr>totalUsdcSize := dadd (totalUsdcSize e1) (or0 (usdcSize trade))\<rparr>;
              e3 = e2\<lparr>averagePrice :=
                     (if totalUsdcSize e2 > 0 then ddiv (totalValue (trades e2)) (totalUsdcSize e2)
                      else or0 (price trade))\<rparr>;
              e4 = e3\<lparr>lastTradeTime := now\<rparr>
          in Map_set key e4 buf
      | None \<Rightarrow>
          Map_set key
            \<lparr>agg_userAddress = userAddress trade,
             agg_conditionId = conditionId trade,
             agg_asset = asset trade,
             agg_side = (case side trade of None \<Rightarrow> ''BUY''
                         | Some sd \<Rightarrow> if sd = [] then ''BUY'' else sd),
             agg_slug = slug trade,
             agg_eventSlug = eventSlug trade,
             trades = [trade],
             totalUsdcSize = or0 (usdcSize trade),
             averagePrice = or0 (price trade),
             firstTradeTime = now,
             lastTradeTime = now\<rparr> buf)"

text \<open>
  \<^verbatim>\<open>getReadyAggregatedTrades\<close> walks the entries of the buffer; an entry whose window has
  elapsed is deleted from the buffer, and pushed to \<open>ready\<close> first when its total reaches the
  minimum.
\<close>

fun ready_loop :: "number \<Rightarrow> number \<Rightarrow> (string \<times> AggregatedTrade) list \<Rightarrow> AggregatedTrade list
    \<Rightarrow> (string, AggregatedTrade) js_map \<Rightarrow> AggregatedTrade list \<times> (string, AggregatedTrade) js_map" where
  "ready_loop now windowMs [] ready m = (ready, m)"
| "ready_loop now windowMs ((key, agg) # es) ready m =
     (if now - firstTradeTime agg \<ge> windowMs
      then ready_loop now windowMs es
             (if totalUsdcSize agg \<ge> TRADE_AGGREGATION_MIN_TOTAL_USD then ready @ [agg] else ready)
             (Map_delete key m)
      else ready_loop now windowMs es ready m)"

definition getReadyAggregatedTrades :: "number \<Rightarrow> number \<Rightarrow> (string, AggregatedTrade) js_map
    \<Rightarrow> AggregatedTrade list \<times> (string, AggregatedTrade) js_map" where
  "getReadyAggregatedTrades windowSeconds now buf = ready_loop now (windowSeconds * 1000) buf [] buf"

subsection \<open>Order submission\<close>

text \<open>
  \<^verbatim>\<open>fetchData\<close>, \<^verbatim>\<open>getMyBalance\<close> and \<^verbatim>\<open>postOrder\<close> are external collaborators. What the
  worker decides is which calls of \<^verbatim>\<open>postOrder\<close> it makes: the side word, the activity and the
  leader's address of each call are recorded in \<open>posted\<close> (the positions and balances passed
  along are whatever the fetches returned). Each of the awaited calls may reject; the outcome for
  an activity is a parameter: everything returns, the fetches throw (no order is posted), or
  \<^verbatim>\<open>postOrder\<close> is called and throws.
\<close>

datatype ext_outcome = Returns | FetchThrows | PostThrows

record order =
  o_side :: string
  o_trade :: QueueActivity
  o_user :: string

record config =
  TRADE_AGGREGATION_ENABLED :: bool
  TRADE_AGGREGATION_WINDOW_SECONDS :: number
  PAPER_TRADING_ENABLED :: bool
  PAPER_TRADING_BALANCE_USD :: number

record worker =
  localQueue :: "QueueActivity list"
  tradeAggregationBuffer :: "(string, AggregatedTrade) js_map"
  paperTrader :: "PaperTrader option"
  posted :: "order list"
  isRunning :: bool
  aggregationFlushInProgress :: bool

definition new_worker :: "config \<Rightarrow> worker" where
  "new_worker cfg =
     \<lparr>localQueue = [], tradeAggregationBuffer = [],
      paperTrader = (if PAPER_TRADING_ENABLED cfg
                     then Some (new_PaperTrader (PAPER_TRADING_BALANCE_USD cfg)) else None),
      posted = [], isRunning = True, aggregationFlushInProgress = False\<rparr>"

definition side_word :: "string option \<Rightarrow> string" where
  "side_word sd = (if sd = Some ''BUY'' then ''buy'' else ''sell'')"

text \<open>
  \<^verbatim>\<open>doTrading\<close> over a list of activities. The boolean of the result tells whether an
  exception left the loop.
\<close>

fun doTrading :: "config \<Rightarrow> (QueueActivity \<Rightarrow> ext_outcome) \<Rightarrow> QueueActivity list \<Rightarrow> worker
    \<Rightarrow> bool \<times> worker" where
  "doTrading cfg ext [] w = (False, w)"
| "doTrading cfg ext (trade # rest) w =
     (case (if PAPER_TRADING_ENABLED cfg then paperTrader w else None) of
        Some pt \<Rightarrow> doTrading cfg ext rest (w\<lparr>paperTrader := Some (snd (executeTrade trade pt))\<rparr>)
      | None \<Rightarrow>
          (case ext trade of
             FetchThrows \<Rightarrow> (True, w)
           | PostThrows \<Rightarrow>
               (True, w\<lparr>posted := posted w @
                  [\<lparr>o_side = side_word (side trade), o_trade = trade, o_user = userAddress trade\<rparr>]\<rparr>)
           | Returns \<Rightarrow>
               doTrading cfg ext rest (w\<lparr>posted := posted w @
                  [\<lparr>o_side = side_word (side trade), o_trade = trade, o_user = userAddress trade\<rparr>]\<rparr>)))"

text \<open>
  The synthetic activity of \<^verbatim>\<open>doAggregatedTrading\<close>: the first trade of the record, with
  \<^verbatim>\<open>usdcSize\<close>, \<^verbatim>\<open>price\<close> and \<^verbatim>\<open>side\<close> overwritten.
\<close>

definition syntheticTrade :: "AggregatedTrade \<Rightarrow> QueueActivity \<Rightarrow> QueueActivity" where
  "syntheticTrade agg first =
     first\<lparr>usdcSize := Some (totalUsdcSize agg), price := Some (averagePrice agg),
           side := Some (agg_side agg)\<rparr>"

text \<open>
  With no trade in the record, reading \<^verbatim>\<open>firstTrade.timestamp\<close> throws before anything is
  fetched.
\<close>

fun doAggregatedTrading :: "(AggregatedTrade \<Rightarrow> ext_outcome) \<Rightarrow> AggregatedTrade list \<Rightarrow> worker
    \<Rightarrow> bool \<times> worker" where
  "doAggregatedTrading ext [] w = (False, w)"
| "doAggregatedTrading ext (agg # rest) w =
     (case trades agg of
        [] \<Rightarrow> (True, w)
      | firstTrade # _ \<Rightarrow>
          (case ext agg of
             FetchThrows \<Rightarrow> (True, w)
           | PostThrows \<Rightarrow>
               (True, w\<lparr>posted := posted w @
                  [\<lparr>o_side = side_word (Some (agg_side agg)),
                    o_trade = syntheticTrade agg firstTrade, o_user = agg_userAddress agg\<rparr>]\<rparr>)
           | Returns \<Rightarrow>
               doAggregatedTrading ext rest (w\<lparr>posted := posted w @
                  [\<lparr>o_side = side_word (Some (agg_side agg)),
                    o_trade = syntheticTrade agg firstTrade, o_user = agg_userAddress agg\<rparr>]\<rparr>)))"

text \<open>
  One tick of the timer that \<^verbatim>\<open>startAggregationFlusher\<close> installs (it installs none when
  aggregation is disabled). The tick is run to its end: the flag
  \<^verbatim>\<open>aggregationFlushInProgress\<close> is set around \<^verbatim>\<open>doAggregatedTrading\<close> and cleared in the
  \<^verbatim>\<open>finally\<close> block, whether or not an exception was caught.
\<close>

definition flusherTick :: "config \<Rightarrow> (AggregatedTrade \<Rightarrow> ext_outcome) \<Rightarrow> number \<Rightarrow> worker \<Rightarrow> worker" where
  "flusherTick cfg ext now w =
     (if \<not> TRADE_AGGREGATION_ENABLED cfg then w
      else if \<not> isRunning w \<or> aggregationFlushInProgress w then w
      else
        (case getReadyAggregatedTrades (TRADE_AGGREGATION_WINDOW_SECONDS cfg) now
                (tradeAggregationBuffer w) of
           (readyAggregations, buf) \<Rightarrow>
             let w1 = w\<lparr>tradeAggregationBuffer := buf\<rparr> in
             if length readyAggregations = 0 then w1
             else
               (snd (doAggregatedTrading ext readyAggregations
                       (w1\<lparr>aggregationFlushInProgress := True\<rparr>)))
                 \<lparr>aggregationFlushInProgress := False\<rparr>))"

text \<open>
  One round of \<^verbatim>\<open>dequeueLoop\<close> while \<^verbatim>\<open>isRunning\<close> holds. The result says what the round
  did with the head of the local queue.
\<close>

datatype routing = Idle | Buffered | Executed

definition dequeueRound :: "config \<Rightarrow> (QueueActivity \<Rightarrow> ext_outcome) \<Rightarrow> number \<Rightarrow> worker
    \<Rightarrow> routing \<times> worker" where
  "dequeueRound cfg ext now w =
     (case localQueue w of
        [] \<Rightarrow> (Idle, w)
      | activity # rest \<Rightarrow>
          let w1 = w\<lparr>localQueue := rest\<rparr> in
          if TRADE_AGGREGATION_ENABLED cfg \<and> side activity = Some ''BUY'' \<and>
             or0 (usdcSize activity) < TRADE_AGGREGATION_MIN_TOTAL_USD
          then (Buffered, w1\<lparr>tradeAggregationBuffer :=
                  addToAggregationBuffer activity now (tradeAggregationBuffer w1)\<rparr>)
          else (Executed, snd (doTrading cfg ext [activity] w1)))"

text \<open>The handler of \<^verbatim>\<open>parentPort.on('message')\<close>.\<close>

definition onMessage :: "message \<Rightarrow> worker \<Rightarrow> worker" where
  "onMessage msg w =
     (case msg of
        ActivityMessage payload \<Rightarrow> w\<lparr>localQueue := localQueue w @ [payload]\<rparr>
      | ShutdownMessage \<Rightarrow> w\<lparr>isRunning := False\<rparr>)"

section \<open>Dedup key (services/activityQueue.ts)\<close>

text \<open>
  \<^verbatim>\<open>toLowerCase\<close> on the letters A to Z; other characters are left as they are (a transaction
  hash is a hexadecimal string).
\<close>

definition toLowerCase_char :: "char \<Rightarrow> char" where
  "toLowerCase_char c =
     (if 65 \<le> (of_char c :: nat) \<and> (of_char c :: nat) \<le> 90
      then char_of ((of_char c :: nat) + 32) else c)"

definition toLowerCase :: "string \<Rightarrow> string" where
  "toLowerCase str = map toLowerCase_char str"

text \<open>\<^verbatim>\<open>Array.prototype.join\<close>: the elements are separated by the separator.\<close>

fun join :: "string \<Rightarrow> string list \<Rightarrow> string" where
  "join sep [] = []"
| "join sep [x] = x"
| "join sep (x # y # ys) = x @ sep @ join sep (y # ys)"

text \<open>
  The composite key. \<^verbatim>\<open>join\<close> prints an absent element as the empty string and a number by
  the language's number-to-string conversion, the parameter \<open>numToString\<close>.
\<close>

definition compositeKey :: "(number \<Rightarrow> string) \<Rightarrow> QueueActivity \<Rightarrow> string" where
  "compositeKey numToString activity =
     join '':''
       [userAddress activity,
        conditionId activity,
        numToString (timestamp activity),
        (case side activity of None \<Rightarrow> [] | Some sd \<Rightarrow> sd),
        (case usdcSize activity of None \<Rightarrow> [] | Some u \<Rightarrow> numToString u),
        (case price activity of None \<Rightarrow> [] | Some p \<Rightarrow> numToString p)]"

text \<open>
  \<^verbatim>\<open>if (activity.transactionHash)\<close> is a truthiness test: an absent hash and the empty string
  both fail it.
\<close>

definition buildActivityDedupKey :: "(number \<Rightarrow> string) \<Rightarrow> QueueActivity \<Rightarrow> string" where
  "buildActivityDedupKey numToString activity =
     (case transactionHash activity of
        Some h \<Rightarrow> if h \<noteq> [] then toLowerCase h else compositeKey numToString activity
      | None \<Rightarrow> compositeKey numToString activity)"

section \<open>Monitor (services/tradeMonitor.ts)\<close>

text \<open>
  What the feed may send as \<^verbatim>\<open>timestamp\<close>: a number, a string, or a value of another type
  (or nothing).
\<close>

datatype js_timestamp = TsNumber number | TsString string | TsOther

text \<open>
  \<^verbatim>\<open>Date.parse\<close> is the parameter \<open>Date_parse\<close>; \<open>None\<close> stands for its result NaN.
  \<open>activityMs\<close> starts at 0 and stays 0 when no branch assigns it.
\<close>

definition activityMs :: "(string \<Rightarrow> number option) \<Rightarrow> js_timestamp \<Rightarrow> number" where
  "activityMs Date_parse ts =
     (case ts of
        TsNumber n \<Rightarrow> if n > 1000000000000 then n else n * 1000
      | TsString str \<Rightarrow> (case Date_parse str of None \<Rightarrow> 0 | Some parsed \<Rightarrow> parsed)
      | TsOther \<Rightarrow> 0)"

text \<open>The test that makes \<^verbatim>\<open>fetchTradeData\<close> skip an activity before it looks at the cache.\<close>

definition skipped :: "number \<Rightarrow> number \<Rightarrow> number \<Rightarrow> bool" where
  "skipped TOO_OLD_SECONDS nowMs ms = (ms = 0 \<or> nowMs - ms > TOO_OLD_SECONDS * 1000)"

record monitor =
  activityDedupCache :: InMemoryDedupCache
  distributorState :: distributor
  enqueuedCount :: nat

record monitor_env =
  TOO_OLD_SECONDS :: number
  env_Date_parse :: "string \<Rightarrow> number option"
  env_numToString :: "number \<Rightarrow> string"

text \<open>
  The body of the loop over the activities of one address. \<^verbatim>\<open>Date.now()\<close> is read three
  times: for the age test (\<open>nowMs\<close>), for \<^verbatim>\<open>_detectedAt\<close> and inside \<^verbatim>\<open>checkAndRemember\<close>.
\<close>

definition processActivity :: "monitor_env \<Rightarrow> string \<Rightarrow> number \<Rightarrow> number \<Rightarrow> number
    \<Rightarrow> js_timestamp Activity \<Rightarrow> monitor \<Rightarrow> monitor" where
  "processActivity env address nowMs detectedNow cacheNow activity st =
     (let ms = activityMs (env_Date_parse env) (timestamp activity) in
      if skipped (TOO_OLD_SECONDS env) nowMs ms then st
      else
        let queueActivity =
              \<lparr>transactionHash = transactionHash activity,
               userAddress = address,
               conditionId = conditionId activity,
               asset = asset activity,
               side = side activity,
               price = price activity,
               size' = size' activity,
               usdcSize = usdcSize activity,
               timestamp = ms,
               slug = slug activity,
               eventSlug = eventSlug activity,
               detectedAt = Some detectedNow\<rparr>;
            dedupKey = buildActivityDedupKey (env_numToString env) queueActivity
        in
          (case checkAndRemember dedupKey cacheNow (activityDedupCache st) of
             (False, c) \<Rightarrow> st\<lparr>activityDedupCache := c\<rparr>
           | (True, c) \<Rightarrow>
               st\<lparr>activityDedupCache := c,
                  distributorState := publishActivityToWorkers queueActivity (distributorState st),
                  enqueuedCount := enqueuedCount st + 1\<rparr>))"

section \<open>Notions used in the statements\<close>

text \<open>
  The cache remembers \<open>K\<close> since \<open>t1\<close> with at most \<open>n\<close> younger entries behind it.
\<close>

definition remembered :: "string \<Rightarrow> number \<Rightarrow> nat \<Rightarrow> InMemoryDedupCache \<Rightarrow> bool" where
  "remembered K t1 n s \<longleftrightarrow>
     Map_ok (cache s) \<and> (\<exists>pre post. cache s = pre @ (K, t1) # post \<and> length post \<le> n)"


text \<open>The distributor as the module leaves it at load time, and a sample activity.\<close>

definition initial_distributor :: distributor where
  "initial_distributor = \<lparr>workerPorts = [], roundRobinIndex = 0, backlog = [], sent = []\<rparr>"

definition sample_trade :: "string \<Rightarrow> number \<Rightarrow> number \<Rightarrow> number \<Rightarrow> QueueActivity" where
  "sample_trade sd sz usdc pr =
     \<lparr>transactionHash = Some ''0xABC'', userAddress = ''0xleader'', conditionId = ''cond-1'',
      asset = ''asset-1'', side = Some sd, price = Some pr, size' = Some sz, usdcSize = Some usdc,
      timestamp = 1700000000000, slug = None, eventSlug = None, detectedAt = None\<rparr>"

text \<open>
  The running sum of a list of doubles, as a loop computes it: from the first element on, each
  addition rounded. What holds of a record of the buffer: its total is the running sum of the
  \<^verbatim>\<open>usdcSize\<close> of its trades in arrival order; its average price is the price of its only
  trade, or else, when the total is positive, the rounded quotient of the running sum (from 0)
  of the rounded products \<^verbatim>\<open>usdcSize * price\<close> by the total, and the price of the last trade
  when the total is not positive.
\<close>

definition double_sum :: "number list \<Rightarrow> number" where
  "double_sum xs = (case xs of [] \<Rightarrow> 0 | x # rest \<Rightarrow> foldl dadd x rest)"

definition record_consistent :: "AggregatedTrade \<Rightarrow> bool" where
  "record_consistent r \<longleftrightarrow>
     trades r \<noteq> [] \<and>
     totalUsdcSize r = double_sum (map (\<lambda>t. or0 (usdcSize t)) (trades r)) \<and>
     averagePrice r =
       (if length (trades r) = 1 then or0 (price (hd (trades r)))
        else if totalUsdcSize r > 0
          then ddiv (double_sum (0 # map (\<lambda>t. dmul (or0 (usdcSize t)) (or0 (price t))) (trades r)))
                 (totalUsdcSize r)
          else or0 (price (last (trades r))))"

text \<open>
  The two operations a worker performs on its buffer, and a run of them: the dequeue loop adds a
  trade, the flusher removes the records whose window has elapsed.
\<close>

datatype buffer_op = Add QueueActivity number | Flush number number

fun run_buffer :: "buffer_op list \<Rightarrow> (string, AggregatedTrade) js_map \<Rightarrow> (string, AggregatedTrade) js_map" where
  "run_buffer [] buf = buf"
| "run_buffer (Add trade now # ops) buf = run_buffer ops (addToAggregationBuffer trade now buf)"
| "run_buffer (Flush windowSeconds now # ops) buf =
     run_buffer ops (snd (getReadyAggregatedTrades windowSeconds now buf))"

text \<open>A record is ready when its window has elapsed; the order submitted for a record.\<close>

definition window_elapsed :: "number \<Rightarrow> number \<Rightarrow> AggregatedTrade \<Rightarrow> bool" where
  "window_elapsed windowSeconds now agg \<longleftrightarrow> now - firstTradeTime agg \<ge> windowSeconds * 1000"

definition order_of :: "AggregatedTrade \<Rightarrow> order" where
  "order_of agg =
     \<lparr>o_side = side_word (Some (agg_side agg)),
      o_trade = (hd (trades agg))\<lparr>usdcSize := Some (totalUsdcSize agg),
                  price := Some (averagePrice agg), side := Some (agg_side agg)\<rparr>,
      o_user = agg_userAddress agg\<rparr>"

text \<open>
  A sample worker: aggregation on with a window of 2 seconds, live trading. Its buffer holds two
  small BUYs on one market, added at times 10 and 20, and one on another market, added at 30.
\<close>

definition sample_config :: config where
  "sample_config =
     \<lparr>TRADE_AGGREGATION_ENABLED = True, TRADE_AGGREGATION_WINDOW_SECONDS = 2,
      PAPER_TRADING_ENABLED = False, PAPER_TRADING_BALANCE_USD = 0\<rparr>"

definition sample_worker :: worker where
  "sample_worker =
     (new_worker sample_config)\<lparr>tradeAggregationBuffer :=
        run_buffer
          [Add (sample_trade ''BUY'' 1 (1/2) (1/2)) 10,
           Add (sample_trade ''BUY'' 1 (3/4) (1/2)) 20,
           Add ((sample_trade ''BUY'' 1 (1/4) (1/2))\<lparr>conditionId := ''cond-2''\<rparr>) 30] []\<rparr>"

text \<open>
  A sample monitor: the cache as the module creates it for a TTL of 60 seconds, one worker
  registered. The sample environment parses no date string but the epoch and
  \<^verbatim>\<open>2023-11-14T22:13:20.000Z\<close>, and prints the three numbers the sample activity carries.
\<close>

definition sample_env :: "number \<Rightarrow> monitor_env" where
  "sample_env tooOld =
     \<lparr>TOO_OLD_SECONDS = tooOld,
      env_Date_parse = (\<lambda>str. if str = ''2023-11-14T22:13:20.000Z'' then Some 1700000000000
                              else if str = ''1970-01-01T00:00:00.000Z'' then Some 0 else None),
      env_numToString = (\<lambda>x. if x = 1700000000000 then ''1700000000000''
                              else if x = 5 then ''5'' else ''0.5'')\<rparr>"

definition sample_feed :: "string option \<Rightarrow> js_timestamp \<Rightarrow> js_timestamp Activity" where
  "sample_feed hash ts =
     \<lparr>transactionHash = hash, userAddress = [], conditionId = ''cond-1'',
      asset = ''asset-1'', side = Some ''BUY'', price = Some (1/2), size' = Some 10,
      usdcSize = Some 5, timestamp = ts, slug = None, eventSlug = None, detectedAt = None\<rparr>"

definition sample_monitor :: monitor where
  "sample_monitor =
     \<lparr>activityDedupCache = new_InMemoryDedupCache 60000 5000,
      distributorState = registerWorkerEndpoint 1 (Worker 1) initial_distributor,
      enqueuedCount = 0\<rparr>"

text \<open>The values of \<^verbatim>\<open>transactionHash\<close> that fail the truthiness test.\<close>

definition falsy_hash :: "string option \<Rightarrow> bool" where
  "falsy_hash h \<longleftrightarrow> h = None \<or> h = Some []"

text \<open>
  The doubles written \<^verbatim>\<open>0.1\<close> and \<^verbatim>\<open>0.2\<close>, and two small BUYs of these amounts on one
  market.
\<close>

definition double_0_1 :: number where
  "double_0_1 = 3602879701896397 / 36028797018963968"

definition double_0_2 :: number where
  "double_0_2 = 3602879701896397 / 18014398509481984"

section \<open>Facts about the map model\<close>

lemma Map_has_iff: "Map_has m k \<longleftrightarrow> k \<in> fst ` set m"
  by (simp add: Map_has_def map_of_eq_None_iff)

lemma Map_set_absent: "k \<notin> fst ` set m \<Longrightarrow> Map_set k v m = m @ [(k, v)]"
  by (induction m) auto

lemma Map_ok_delete: "Map_ok m \<Longrightarrow> Map_ok (Map_delete k m)"
  by (simp add: Map_ok_def Map_delete_def distinct_map_filter)

lemma Map_ok_set: "Map_ok m \<Longrightarrow> Map_ok (Map_set k v m)"
proof (induction m)
  case Nil
  then show ?case by (simp add: Map_ok_def)
next
  case (Cons e es)
  have keys: "fst ` set (Map_set k v es) = insert k (fst ` set es)"
    by (induction es) auto
  from Cons show ?case
    by (auto simp: Map_ok_def keys)
qed

lemma Map_delete_hd:
  assumes "Map_ok (e # es)"
  shows "Map_delete (fst e) (e # es) = es"
proof -
  from assms have "fst e \<notin> fst ` set es"
    by (simp add: Map_ok_def)
  then have "\<forall>x\<in>set es. fst x \<noteq> fst e"
    by (metis imageI)
  then have "filter (\<lambda>x. fst x \<noteq> fst e) es = es"
    by (simp add: filter_id_conv)
  then show ?thesis
    by (simp add: Map_delete_def)
qed

lemma filter_keys_distinct:
  assumes "Map_ok m"
  shows "filter (\<lambda>e. fst e \<notin> fst ` {x \<in> set m. P x}) m = filter (\<lambda>e. \<not> P e) m"
proof (rule filter_cong[OF refl])
  fix e assume e: "e \<in> set m"
  have inj: "inj_on fst (set m)"
    using assms by (simp add: Map_ok_def distinct_map)
  show "(fst e \<notin> fst ` {x \<in> set m. P x}) = (\<not> P e)"
  proof
    assume "fst e \<notin> fst ` {x \<in> set m. P x}"
    with e show "\<not> P e" by auto
  next
    assume notP: "\<not> P e"
    show "fst e \<notin> fst ` {x \<in> set m. P x}"
    proof
      assume "fst e \<in> fst ` {x \<in> set m. P x}"
      then obtain x where x: "x \<in> set m" "P x" "fst x = fst e" by auto
      with inj e have "x = e" by (metis inj_onD)
      with x(2) notP show False by simp
    qed
  qed
qed

section \<open>The sweep is a filter\<close>

lemma evict_loop_filter:
  "evict_loop now ttl es m =
     filter (\<lambda>e. fst e \<notin> fst ` {x \<in> set es. now - snd x > ttl}) m"
proof (induction es arbitrary: m)
  case Nil
  then show ?case by simp
next
  case (Cons a es)
  obtain k t where a: "a = (k, t)" by (cases a)
  show ?case
  proof (cases "now - t > ttl")
    case True
    have "evict_loop now ttl (a # es) m = evict_loop now ttl es (Map_delete k m)"
      using True a by simp
    also have "\<dots> = filter (\<lambda>e. fst e \<notin> fst ` {x \<in> set es. now - snd x > ttl})
        (filter (\<lambda>e. fst e \<noteq> k) m)"
      by (simp add: Cons.IH Map_delete_def)
    also have "\<dots> = filter (\<lambda>e. fst e \<notin> fst ` {x \<in> set (a # es). now - snd x > ttl}) m"
      using True a by (auto intro!: filter_cong simp: image_iff)
    finally show ?thesis .
  next
    case False
    have "evict_loop now ttl (a # es) m = evict_loop now ttl es m"
      using False a by simp
    also have "\<dots> = filter (\<lambda>e. fst e \<notin> fst ` {x \<in> set es. now - snd x > ttl}) m"
      by (rule Cons.IH)
    also have "\<dots> = filter (\<lambda>e. fst e \<notin> fst ` {x \<in> set (a # es). now - snd x > ttl}) m"
      using False a by (auto intro!: filter_cong simp: image_iff)
    finally show ?thesis .
  qed
qed

lemma evictExpired_live:
  assumes "Map_ok (cache s)"
  shows "cache (evictExpired now s) = live_entries now s"
  using filter_keys_distinct[OF assms, of "\<lambda>x. now - snd x > ttlMs s"]
  by (simp add: evictExpired_def evict_loop_filter live_entries_def)

lemma Map_ok_live: "Map_ok (cache s) \<Longrightarrow> Map_ok (live_entries now s)"
  by (simp add: Map_ok_def live_entries_def distinct_map_filter)

section \<open>The dedup cache\<close>

lemma checkAndRemember_params:
  "ttlMs (snd (checkAndRemember key now s)) = ttlMs s \<and>
   maxEntries (snd (checkAndRemember key now s)) = maxEntries s"
  by (simp add: checkAndRemember_def evictExpired_def Let_def)

lemma checkAndRemember_Map_ok:
  assumes "Map_ok (cache s)"
  shows "Map_ok (cache (snd (checkAndRemember key now s)))"
proof -
  have live: "Map_ok (live_entries now s)"
    using assms by (rule Map_ok_live)
  have old: "Map_ok (evictOldest m)" if "Map_ok m" for m :: "(string, number) js_map"
    using that by (auto simp: evictOldest_def Map_ok_delete split: list.splits)
  show ?thesis
    using live old[OF Map_ok_set[OF live]] Map_ok_set[OF live]
    by (simp add: checkAndRemember_def Let_def evictExpired_live[OF assms])
qed

lemma checkAndRemember_cases:
  assumes ok: "Map_ok (cache s)"
  shows "checkAndRemember key now s =
    (if key \<in> fst ` set (live_entries now s) then (False, s\<lparr>cache := live_entries now s\<rparr>)
     else (True, s\<lparr>cache :=
        (if real (length (live_entries now s) + 1) > maxEntries s
         then evictOldest (live_entries now s @ [(key, now)])
         else live_entries now s @ [(key, now)])\<rparr>))"
proof -
  have c: "cache (evictExpired now s) = live_entries now s"
    using ok by (rule evictExpired_live)
  have e: "evictExpired now s = s\<lparr>cache := live_entries now s\<rparr>"
    using c by (simp add: evictExpired_def)
  show ?thesis
    by (simp add: checkAndRemember_def Let_def e Map_has_iff Map_set_absent)
qed

lemma evictOldest_Cons:
  "evictOldest (e # es) = (if fst e \<noteq> [] then Map_delete (fst e) (e # es) else e # es)"
  by (cases e) (simp add: evictOldest_def)

lemma evictOldest_keeps:
  assumes m: "m = pre @ (K, t1) # post" and pre: "pre \<noteq> []" and ok: "Map_ok m"
  shows "\<exists>pre' post'. evictOldest m = pre' @ (K, t1) # post' \<and> length post' \<le> length post"
proof -
  obtain e es where e: "pre = e # es"
    using pre by (cases pre) auto
  have neq: "fst e \<noteq> K"
    using ok m e by (auto simp: Map_ok_def)
  show ?thesis
  proof (cases "fst e = []")
    case True
    then have "evictOldest m = m"
      using m e by (simp add: evictOldest_Cons)
    then show ?thesis using m by blast
  next
    case False
    then have "evictOldest m = Map_delete (fst e) m"
      using m e by (simp add: evictOldest_Cons)
    also have "\<dots> = filter (\<lambda>x. fst x \<noteq> fst e) pre @ (K, t1) # filter (\<lambda>x. fst x \<noteq> fst e) post"
      using neq m by (simp add: Map_delete_def)
    finally show ?thesis
      by (metis length_filter_le)
  qed
qed

text \<open>
  Claim C3, as amended. On a well-formed cache with \<open>maxEntries \<ge> 1\<close> (the constructor's
  clamp), \<^verbatim>\<open>checkAndRemember(key)\<close> first drops every entry older than the TTL and returns
  true if and only if \<open>key\<close> is not among the entries that remain. When it returns false,
  nothing is inserted: the cache is the swept cache, and the entry of \<open>key\<close> keeps the
  timestamp it had. When it returns true, \<open>(key, now)\<close> is appended, and if the count then
  exceeds \<open>maxEntries\<close> and the oldest-inserted key is a non-empty string, that oldest entry
  is removed. \<^verbatim>\<open>size()\<close> sweeps and returns the number of entries that have not expired.
\<close>

theorem checkAndRemember_contract:
  assumes ok: "Map_ok (cache s)" and room: "1 \<le> maxEntries s"
  shows "(fst (checkAndRemember key now s) \<longleftrightarrow> key \<notin> fst ` set (live_entries now s)) \<and>
    (\<not> fst (checkAndRemember key now s) \<longrightarrow>
       cache (snd (checkAndRemember key now s)) = live_entries now s) \<and>
    (fst (checkAndRemember key now s) \<and> real (length (live_entries now s) + 1) \<le> maxEntries s \<longrightarrow>
       cache (snd (checkAndRemember key now s)) = live_entries now s @ [(key, now)]) \<and>
    (fst (checkAndRemember key now s) \<and> real (length (live_entries now s) + 1) > maxEntries s \<and>
       fst (hd (live_entries now s)) \<noteq> [] \<longrightarrow>
       cache (snd (checkAndRemember key now s)) = tl (live_entries now s) @ [(key, now)]) \<and>
    fst (size_cache now s) = length (live_entries now s) \<and>
    cache (snd (size_cache now s)) = live_entries now s"
proof -
  let ?live = "live_entries now s"
  have evict: "evictOldest (?live @ [(key, now)]) = tl ?live @ [(key, now)]"
    if over: "real (length ?live + 1) > maxEntries s" and ne: "fst (hd ?live) \<noteq> []"
      and absent: "key \<notin> fst ` set ?live"
  proof -
    from over room have "?live \<noteq> []" by auto
    then obtain e es where live: "?live = e # es" by (cases ?live) auto
    have "Map_ok (?live @ [(key, now)])"
      using Map_ok_set[OF Map_ok_live[OF ok], of key now now] absent
      by (simp add: Map_set_absent)
    then have "Map_delete (fst e) (e # (es @ [(key, now)])) = es @ [(key, now)]"
      unfolding live by (intro Map_delete_hd) simp
    then show ?thesis
      using ne by (simp add: live evictOldest_Cons)
  qed
  have size: "fst (size_cache now s) = length ?live \<and> cache (snd (size_cache now s)) = ?live"
    by (simp add: size_cache_def Let_def evictExpired_live[OF ok])
  show ?thesis
    using evict size by (simp add: checkAndRemember_cases[OF ok])
qed

theorem checkAndRemember_contract_witness:
  "Map_ok (cache \<lparr>cache = [(''a'', 0), (''b'', 10)], ttlMs = 100, maxEntries = 2\<rparr>) \<and>
   (1::real) \<le> maxEntries \<lparr>cache = [(''a'', 0), (''b'', 10)], ttlMs = 100, maxEntries = 2\<rparr> \<and>
   live_entries 105 \<lparr>cache = [(''a'', 0), (''b'', 10)], ttlMs = 100, maxEntries = 2\<rparr> = [(''b'', 10)] \<and>
   \<not> fst (checkAndRemember ''b'' 105 \<lparr>cache = [(''a'', 0), (''b'', 10)], ttlMs = 100, maxEntries = 2\<rparr>) \<and>
   cache (snd (checkAndRemember ''b'' 105 \<lparr>cache = [(''a'', 0), (''b'', 10)], ttlMs = 100, maxEntries = 2\<rparr>))
     = [(''b'', 10)] \<and>
   fst (checkAndRemember ''c'' 105 \<lparr>cache = [(''a'', 0), (''b'', 10)], ttlMs = 100, maxEntries = 2\<rparr>) \<and>
   cache (snd (checkAndRemember ''c'' 105 \<lparr>cache = [(''a'', 0), (''b'', 10)], ttlMs = 100, maxEntries = 2\<rparr>))
     = [(''b'', 10), (''c'', 105)] \<and>
   fst (checkAndRemember ''c'' 20 \<lparr>cache = [(''a'', 0), (''b'', 10)], ttlMs = 100, maxEntries = 2\<rparr>) \<and>
   cache (snd (checkAndRemember ''c'' 20 \<lparr>cache = [(''a'', 0), (''b'', 10)], ttlMs = 100, maxEntries = 2\<rparr>))
     = [(''b'', 10), (''c'', 20)] \<and>
   fst (size_cache 105 \<lparr>cache = [(''a'', 0), (''b'', 10)], ttlMs = 100, maxEntries = 2\<rparr>) = 1"
  using checkAndRemember_contract
      [of "\<lparr>cache = [(''a'', 0), (''b'', 10)], ttlMs = 100, maxEntries = 2\<rparr>" "''b''" 105]
    checkAndRemember_contract
      [of "\<lparr>cache = [(''a'', 0), (''b'', 10)], ttlMs = 100, maxEntries = 2\<rparr>" "''c''" 105]
    checkAndRemember_contract
      [of "\<lparr>cache = [(''a'', 0), (''b'', 10)], ttlMs = 100, maxEntries = 2\<rparr>" "''c''" 20]
  by (simp add: Map_ok_def live_entries_def)

text \<open>
  Claim C3 as stated has \<open>(key, now)\<close> inserted by every call. A second call for a key that
  is still remembered returns false and leaves the first timestamp in place.
\<close>

theorem checkAndRemember_insert_counterexample:
  "\<not> fst (checkAndRemember ''k'' 50 (snd (checkAndRemember ''k'' 0 (new_InMemoryDedupCache 100 5000)))) \<and>
   Map_get (cache (snd (checkAndRemember ''k'' 50
      (snd (checkAndRemember ''k'' 0 (new_InMemoryDedupCache 100 5000)))))) ''k'' = Some 0 \<and>
   Map_get (cache (snd (checkAndRemember ''k'' 50
      (snd (checkAndRemember ''k'' 0 (new_InMemoryDedupCache 100 5000)))))) ''k'' \<noteq> Some 50"
  by (simp add: checkAndRemember_def new_InMemoryDedupCache_def evictExpired_def Let_def
      Map_has_def Map_get_def Map_delete_def evictOldest_def)

text \<open>
  The truthiness test on \<^verbatim>\<open>oldestKey\<close>: when the oldest key is the empty string, nothing is
  evicted and the cache holds more than \<open>maxEntries\<close> entries.
\<close>

lemma checkAndRemember_empty_key_stays:
  "checkAndRemember ''b'' 1 (snd (checkAndRemember [] 0 (new_InMemoryDedupCache 100 1)))
     = (True, \<lparr>cache = [([], 0), (''b'', 1)], ttlMs = 100, maxEntries = 1\<rparr>)"
  by (simp add: checkAndRemember_def new_InMemoryDedupCache_def evictExpired_def Let_def
      Map_has_def Map_get_def Map_delete_def evictOldest_def)


lemma remembered_mono: "remembered K t1 n s \<Longrightarrow> n \<le> m \<Longrightarrow> remembered K t1 m s"
  by (auto simp: remembered_def intro: le_trans)


lemma remembered_first:
  assumes ok: "Map_ok (cache s)" and room: "1 \<le> maxEntries s"
    and new: "fst (checkAndRemember K t1 s)"
  shows "remembered K t1 0 (snd (checkAndRemember K t1 s))"
proof -
  have absent: "K \<notin> fst ` set (live_entries t1 s)"
    using new by (simp add: checkAndRemember_cases[OF ok] split: if_splits)
  let ?c2 = "live_entries t1 s @ [(K, t1)]"
  have ok2: "Map_ok ?c2"
    using Map_ok_set[OF Map_ok_live[OF ok], of K t1 t1] absent
    by (simp add: Map_set_absent)
  have "\<exists>pre post. cache (snd (checkAndRemember K t1 s)) = pre @ (K, t1) # post \<and> length post \<le> 0"
  proof (cases "real (length (live_entries t1 s) + 1) > maxEntries s")
    case True
    with room have ne: "live_entries t1 s \<noteq> []" by auto
    have c2: "?c2 = live_entries t1 s @ (K, t1) # []" by simp
    have "cache (snd (checkAndRemember K t1 s)) = evictOldest ?c2"
      using absent True by (simp add: checkAndRemember_cases[OF ok])
    then show ?thesis
      using evictOldest_keeps[OF c2 ne ok2] by simp
  next
    case False
    then have "cache (snd (checkAndRemember K t1 s)) = ?c2"
      using absent by (simp add: checkAndRemember_cases[OF ok])
    then show ?thesis by simp
  qed
  then show ?thesis
    using checkAndRemember_Map_ok[OF ok] by (simp add: remembered_def)
qed

lemma remembered_hit:
  assumes "remembered K t1 n s" and "t2 - t1 \<le> ttlMs s"
  shows "\<not> fst (checkAndRemember K t2 s)"
proof -
  from assms(1) obtain pre post where ok: "Map_ok (cache s)"
    and c: "cache s = pre @ (K, t1) # post"
    by (auto simp: remembered_def)
  have "(K, t1) \<in> set (live_entries t2 s)"
    using assms(2) c by (simp add: live_entries_def)
  then have "K \<in> fst ` set (live_entries t2 s)"
    by force
  then show ?thesis
    by (simp add: checkAndRemember_cases[OF ok])
qed




section \<open>The distributor\<close>

lemma pickWorker_Some:
  assumes "workerPorts s \<noteq> []"
  shows "\<exists>w. w \<in> set (workerPorts s) \<and>
     pickWorker s = (Some w, s\<lparr>roundRobinIndex := (roundRobinIndex s + 1) mod length (workerPorts s)\<rparr>)"
proof -
  have "roundRobinIndex s mod length (workerPorts s) < length (workerPorts s)"
    using assms by simp
  then have "workerPorts s ! (roundRobinIndex s mod length (workerPorts s)) \<in> set (workerPorts s)"
    by (rule nth_mem)
  then show ?thesis
    using assms by (simp add: pickWorker_def)
qed

lemma pickWorker_None: "workerPorts s = [] \<Longrightarrow> pickWorker s = (None, s)"
  by (simp add: pickWorker_def)

lemma flushBacklog_drains:
  assumes "backlog s = bl" and "workerPorts s \<noteq> []"
  shows "\<exists>ws. length ws = length bl \<and> set ws \<subseteq> set (workerPorts s) \<and>
     sent (flushBacklog s) = sent s @ map (\<lambda>(w, a). (endpoint w, ActivityMessage a)) (zip ws bl) \<and>
     backlog (flushBacklog s) = [] \<and> workerPorts (flushBacklog s) = workerPorts s"
  using assms
proof (induction bl arbitrary: s)
  case Nil
  then have "flushBacklog s = s"
    by (subst flushBacklog.simps) simp
  with Nil show ?case by simp
next
  case (Cons a rest)
  let ?s0 = "s\<lparr>backlog := rest\<rparr>"
  have ne: "workerPorts ?s0 \<noteq> []" using Cons.prems(2) by simp
  obtain w where w: "w \<in> set (workerPorts s)"
    and pick: "pickWorker ?s0 =
      (Some w, ?s0\<lparr>roundRobinIndex := (roundRobinIndex ?s0 + 1) mod length (workerPorts ?s0)\<rparr>)"
    using pickWorker_Some[OF ne] by auto
  define s1 where "s1 = send (endpoint w) (ActivityMessage a)
      (?s0\<lparr>roundRobinIndex := (roundRobinIndex ?s0 + 1) mod length (workerPorts ?s0)\<rparr>)"
  have unfold: "flushBacklog s = flushBacklog s1"
    using Cons.prems pick by (subst flushBacklog.simps) (simp add: s1_def)
  have s1: "backlog s1 = rest" "workerPorts s1 = workerPorts s"
    "sent s1 = sent s @ [(endpoint w, ActivityMessage a)]"
    by (simp_all add: s1_def send_def)
  from Cons.IH[OF s1(1)] s1(2) Cons.prems(2)
  obtain ws where ws: "length ws = length rest" "set ws \<subseteq> set (workerPorts s)"
    "sent (flushBacklog s1) = sent s1 @ map (\<lambda>(w, a). (endpoint w, ActivityMessage a)) (zip ws rest)"
    "backlog (flushBacklog s1) = []" "workerPorts (flushBacklog s1) = workerPorts s"
    by auto
  have "length (w # ws) = length (a # rest) \<and> set (w # ws) \<subseteq> set (workerPorts s) \<and>
     sent (flushBacklog s) = sent s @ map (\<lambda>(w, a). (endpoint w, ActivityMessage a)) (zip (w # ws) (a # rest)) \<and>
     backlog (flushBacklog s) = [] \<and> workerPorts (flushBacklog s) = workerPorts s"
    using ws w s1(3) unfold by simp
  then show ?case by blast
qed

text \<open>
  Claim C1. \<^verbatim>\<open>publishActivityToWorkers\<close>: with at least one worker registered, exactly one
  message carrying the activity is posted, to the endpoint of a registered worker, and the
  backlog is unchanged; with no worker registered nothing is posted and the activity is appended
  to the backlog. \<^verbatim>\<open>registerWorkerEndpoint\<close> appends the worker and then posts one message for
  each activity of the backlog, in backlog order, each to the endpoint of a registered worker,
  and leaves the backlog empty.
\<close>

theorem publish_and_backlog_delivery:
  "(workerPorts s \<noteq> [] \<longrightarrow>
      (\<exists>w. w \<in> set (workerPorts s) \<and>
         sent (publishActivityToWorkers activity s) = sent s @ [(endpoint w, ActivityMessage activity)]) \<and>
      backlog (publishActivityToWorkers activity s) = backlog s) \<and>
   (workerPorts s = [] \<longrightarrow>
      backlog (publishActivityToWorkers activity s) = backlog s @ [activity] \<and>
      sent (publishActivityToWorkers activity s) = sent s) \<and>
   (\<exists>ws. length ws = length (backlog s) \<and>
      set ws \<subseteq> set (workerPorts (registerWorkerEndpoint i e s)) \<and>
      sent (registerWorkerEndpoint i e s) =
        sent s @ map (\<lambda>(w, a). (endpoint w, ActivityMessage a)) (zip ws (backlog s))) \<and>
   backlog (registerWorkerEndpoint i e s) = [] \<and>
   workerPorts (registerWorkerEndpoint i e s) = workerPorts s @ [\<lparr>id' = i, endpoint = e\<rparr>]"
proof -
  have some: "(\<exists>w. w \<in> set (workerPorts s) \<and>
         sent (publishActivityToWorkers activity s) = sent s @ [(endpoint w, ActivityMessage activity)]) \<and>
      backlog (publishActivityToWorkers activity s) = backlog s" if "workerPorts s \<noteq> []"
  proof -
    from pickWorker_Some[OF that] obtain w where w: "w \<in> set (workerPorts s)"
      and pick: "pickWorker s =
        (Some w, s\<lparr>roundRobinIndex := (roundRobinIndex s + 1) mod length (workerPorts s)\<rparr>)"
      by auto
    have "sent (publishActivityToWorkers activity s) = sent s @ [(endpoint w, ActivityMessage activity)]"
      "backlog (publishActivityToWorkers activity s) = backlog s"
      by (simp_all add: publishActivityToWorkers_def pick send_def)
    with w show ?thesis by blast
  qed
  have none: "backlog (publishActivityToWorkers activity s) = backlog s @ [activity] \<and>
      sent (publishActivityToWorkers activity s) = sent s" if "workerPorts s = []"
    by (simp add: publishActivityToWorkers_def pickWorker_None[OF that])
  let ?s = "s\<lparr>workerPorts := workerPorts s @ [\<lparr>id' = i, endpoint = e\<rparr>]\<rparr>"
  have "\<exists>ws. length ws = length (backlog s) \<and> set ws \<subseteq> set (workerPorts ?s) \<and>
     sent (flushBacklog ?s) = sent ?s @ map (\<lambda>(w, a). (endpoint w, ActivityMessage a)) (zip ws (backlog s)) \<and>
     backlog (flushBacklog ?s) = [] \<and> workerPorts (flushBacklog ?s) = workerPorts ?s"
    by (rule flushBacklog_drains) simp_all
  then have reg: "(\<exists>ws. length ws = length (backlog s) \<and>
      set ws \<subseteq> set (workerPorts (registerWorkerEndpoint i e s)) \<and>
      sent (registerWorkerEndpoint i e s) =
        sent s @ map (\<lambda>(w, a). (endpoint w, ActivityMessage a)) (zip ws (backlog s))) \<and>
   backlog (registerWorkerEndpoint i e s) = [] \<and>
   workerPorts (registerWorkerEndpoint i e s) = workerPorts s @ [\<lparr>id' = i, endpoint = e\<rparr>]"
    by (auto simp: registerWorkerEndpoint_def)
  from some none reg show ?thesis by blast
qed


theorem publish_and_backlog_delivery_witness:
  "workerPorts initial_distributor = [] \<and>
   backlog (publishActivityToWorkers (sample_trade ''BUY'' 10 5 (1/2)) initial_distributor)
     = [sample_trade ''BUY'' 10 5 (1/2)] \<and>
   sent (publishActivityToWorkers (sample_trade ''BUY'' 10 5 (1/2)) initial_distributor) = [] \<and>
   sent (registerWorkerEndpoint 1 (Worker 1)
       (publishActivityToWorkers (sample_trade ''BUY'' 10 5 (1/2)) initial_distributor))
     = [(Worker 1, ActivityMessage (sample_trade ''BUY'' 10 5 (1/2)))] \<and>
   backlog (registerWorkerEndpoint 1 (Worker 1)
       (publishActivityToWorkers (sample_trade ''BUY'' 10 5 (1/2)) initial_distributor)) = [] \<and>
   workerPorts (registerWorkerEndpoint 1 (Worker 1) initial_distributor) \<noteq> [] \<and>
   sent (publishActivityToWorkers (sample_trade ''SELL'' 10 5 (1/2))
       (registerWorkerEndpoint 1 (Worker 1) initial_distributor))
     = [(Worker 1, ActivityMessage (sample_trade ''SELL'' 10 5 (1/2)))] \<and>
   backlog (publishActivityToWorkers (sample_trade ''SELL'' 10 5 (1/2))
       (registerWorkerEndpoint 1 (Worker 1) initial_distributor)) = []"
  using publish_and_backlog_delivery
      [of initial_distributor "sample_trade ''BUY'' 10 5 (1/2)" 1 "Worker 1"]
    publish_and_backlog_delivery
      [of "publishActivityToWorkers (sample_trade ''BUY'' 10 5 (1/2)) initial_distributor"
          "sample_trade ''BUY'' 10 5 (1/2)" 1 "Worker 1"]
    publish_and_backlog_delivery
      [of "registerWorkerEndpoint 1 (Worker 1) initial_distributor"
          "sample_trade ''SELL'' 10 5 (1/2)" 1 "Worker 1"]
  by (simp add: initial_distributor_def publishActivityToWorkers_def pickWorker_def
      registerWorkerEndpoint_def send_def)

section \<open>The paper trader\<close>

lemma Map_get_delete_same: "Map_get (Map_delete k m) k = None"
  by (induction m) (auto simp: Map_get_def Map_delete_def)

text \<open>
  Claim C6. \<^verbatim>\<open>executeTrade\<close> returns false exactly when the trade is a BUY whose
  \<^verbatim>\<open>usdcSize\<close> exceeds the balance, or a SELL (the source takes every side other than
  \<^verbatim>\<open>'BUY'\<close> as one) for which no position exists or whose \<^verbatim>\<open>size\<close> exceeds the size held.
  A refused trade leaves balance and positions as they were. An accepted SELL that brings the
  size to exactly zero deletes the position from the map.
\<close>

theorem executeTrade_refusal:
  "(\<not> fst (executeTrade trade pt) \<longleftrightarrow>
      (side trade = Some ''BUY'' \<and> balance pt < or0 (usdcSize trade)) \<or>
      (side trade \<noteq> Some ''BUY'' \<and>
         (case Map_get (positions pt) (conditionId trade) of
            None \<Rightarrow> True
          | Some existing \<Rightarrow> p_size existing < or0 (size' trade)))) \<and>
   (\<not> fst (executeTrade trade pt) \<longrightarrow> snd (executeTrade trade pt) = pt) \<and>
   (\<forall>existing. side trade \<noteq> Some ''BUY'' \<and> fst (executeTrade trade pt) \<and>
      Map_get (positions pt) (conditionId trade) = Some existing \<and>
      p_size existing - or0 (size' trade) = 0 \<longrightarrow>
        positions (snd (executeTrade trade pt)) = Map_delete (conditionId trade) (positions pt) \<and>
        Map_get (positions (snd (executeTrade trade pt))) (conditionId trade) = None)"
  by (auto simp: executeTrade_def Let_def Map_get_delete_same split: option.splits)


theorem executeTrade_refusal_witness:
  "\<not> fst (executeTrade (sample_trade ''BUY'' 10 20 2) (new_PaperTrader 10)) \<and>
   snd (executeTrade (sample_trade ''BUY'' 10 20 2) (new_PaperTrader 10)) = new_PaperTrader 10 \<and>
   \<not> fst (executeTrade (sample_trade ''SELL'' 10 5 (1/2)) (new_PaperTrader 10)) \<and>
   snd (executeTrade (sample_trade ''SELL'' 10 5 (1/2)) (new_PaperTrader 10)) = new_PaperTrader 10 \<and>
   fst (executeTrade (sample_trade ''BUY'' 10 5 (1/2)) (new_PaperTrader 10)) \<and>
   \<not> fst (executeTrade (sample_trade ''SELL'' 11 6 (1/2))
       (snd (executeTrade (sample_trade ''BUY'' 10 5 (1/2)) (new_PaperTrader 10)))) \<and>
   fst (executeTrade (sample_trade ''SELL'' 10 6 (1/2))
       (snd (executeTrade (sample_trade ''BUY'' 10 5 (1/2)) (new_PaperTrader 10)))) \<and>
   positions (snd (executeTrade (sample_trade ''SELL'' 10 6 (1/2))
       (snd (executeTrade (sample_trade ''BUY'' 10 5 (1/2)) (new_PaperTrader 10))))) = []"
  using executeTrade_refusal [of "sample_trade ''BUY'' 10 20 2" "new_PaperTrader 10"]
    executeTrade_refusal [of "sample_trade ''SELL'' 10 5 (1/2)" "new_PaperTrader 10"]
    executeTrade_refusal [of "sample_trade ''SELL'' 10 6 (1/2)"
      "snd (executeTrade (sample_trade ''BUY'' 10 5 (1/2)) (new_PaperTrader 10))"]
  by (simp add: executeTrade_def sample_trade_def new_PaperTrader_def or0_def Let_def
      Map_get_def Map_delete_def)

text \<open>
  Claim C5, the code at a failing input. A trader with 10 buys 4 units for 4 (price 1) and then
  sells 3 of them for 6. The SELL is accepted. It subtracts the proceeds, not the cost of the
  units sold, from \<^verbatim>\<open>invested\<close>: the position still holds 1 unit with \<^verbatim>\<open>invested = -2\<close> and
  \<^verbatim>\<open>avgPrice\<close> still 1, and \<open>balance + \<Sum> invested\<close> is 10 as before the SELL, where the
  claim has it grow by \<open>usdcSize - size \<sqdot> avgPrice_before = 6 - 3 \<sqdot> 1\<close>.
\<close>

theorem executeTrade_partial_sell_evaluation:
  "executeTrade (sample_trade ''BUY'' 4 4 1) (new_PaperTrader 10)
     = (True, \<lparr>balance = 6, positions = [(''cond-1'',
          \<lparr>p_conditionId = ''cond-1'', p_asset = ''asset-1'', p_size = 4, p_invested = 4,
           p_avgPrice = 1\<rparr>)]\<rparr>) \<and>
   getUserPortfolioValue (snd (executeTrade (sample_trade ''BUY'' 4 4 1) (new_PaperTrader 10))) = 4 \<and>
   executeTrade (sample_trade ''SELL'' 3 6 2)
      (snd (executeTrade (sample_trade ''BUY'' 4 4 1) (new_PaperTrader 10)))
     = (True, \<lparr>balance = 12, positions = [(''cond-1'',
          \<lparr>p_conditionId = ''cond-1'', p_asset = ''asset-1'', p_size = 1, p_invested = - 2,
           p_avgPrice = 1\<rparr>)]\<rparr>) \<and>
   getUserPortfolioValue (snd (executeTrade (sample_trade ''SELL'' 3 6 2)
      (snd (executeTrade (sample_trade ''BUY'' 4 4 1) (new_PaperTrader 10))))) = - 2 \<and>
   balance (snd (executeTrade (sample_trade ''SELL'' 3 6 2)
      (snd (executeTrade (sample_trade ''BUY'' 4 4 1) (new_PaperTrader 10))))) +
     getUserPortfolioValue (snd (executeTrade (sample_trade ''SELL'' 3 6 2)
      (snd (executeTrade (sample_trade ''BUY'' 4 4 1) (new_PaperTrader 10)))))
   \<noteq> balance (snd (executeTrade (sample_trade ''BUY'' 4 4 1) (new_PaperTrader 10))) +
     getUserPortfolioValue (snd (executeTrade (sample_trade ''BUY'' 4 4 1) (new_PaperTrader 10))) +
     (6 - 3 * 1)"
  by (simp add: executeTrade_def sample_trade_def new_PaperTrader_def or0_def Let_def
      Map_get_def Map_delete_def getUserPortfolioValue_def)

section \<open>The aggregation buffer\<close>

lemma set_Map_set: "set (Map_set k v m) \<subseteq> insert (k, v) (set m)"
  by (induction m) auto

lemma Map_get_in_set: "Map_get m k = Some v \<Longrightarrow> (k, v) \<in> set m"
  by (simp add: Map_get_def map_of_SomeD)

lemma Map_get_set_same: "Map_get (Map_set k v m) k = Some v"
  by (induction m) (auto simp: Map_get_def)

lemma Map_get_set_other: "k' \<noteq> k \<Longrightarrow> Map_get (Map_set k v m) k' = Map_get m k'"
  by (induction m) (auto simp: Map_get_def)

lemma double_sum_snoc: "xs \<noteq> [] \<Longrightarrow> double_sum (xs @ [y]) = dadd (double_sum xs) y"
  by (cases xs) (simp_all add: double_sum_def)

lemma totalValue_double_sum:
  "totalValue ts = double_sum (0 # map (\<lambda>t. dmul (or0 (usdcSize t)) (or0 (price t))) ts)"
  by (simp add: totalValue_def double_sum_def foldl_map)

lemma record_consistent_new:
  "record_consistent
     \<lparr>agg_userAddress = a, agg_conditionId = c, agg_asset = s, agg_side = sd, agg_slug = sl,
      agg_eventSlug = es, trades = [trade], totalUsdcSize = or0 (usdcSize trade),
      averagePrice = or0 (price trade), firstTradeTime = now, lastTradeTime = now\<rparr>"
  by (simp add: record_consistent_def double_sum_def)

lemma record_consistent_push:
  assumes "record_consistent r"
  shows "record_consistent
     (r\<lparr>trades := trades r @ [trade],
        totalUsdcSize := dadd (totalUsdcSize r) (or0 (usdcSize trade)),
        averagePrice :=
          (if dadd (totalUsdcSize r) (or0 (usdcSize trade)) > 0
           then ddiv (totalValue (trades r @ [trade])) (dadd (totalUsdcSize r) (or0 (usdcSize trade)))
           else or0 (price trade)),
        lastTradeTime := now\<rparr>)"
proof -
  from assms have ne: "trades r \<noteq> []"
    and total: "totalUsdcSize r = double_sum (map (\<lambda>t. or0 (usdcSize t)) (trades r))"
    by (simp_all add: record_consistent_def)
  have "dadd (totalUsdcSize r) (or0 (usdcSize trade))
      = double_sum (map (\<lambda>t. or0 (usdcSize t)) (trades r @ [trade]))"
    using ne by (simp add: total double_sum_snoc)
  moreover have "length (trades r @ [trade]) \<noteq> 1"
    using ne by (cases "trades r") simp_all
  ultimately show ?thesis
    using ne by (simp add: record_consistent_def totalValue_double_sum)
qed

lemma addToAggregationBuffer_consistent:
  assumes "\<forall>e\<in>set buf. record_consistent (snd e)"
  shows "\<forall>e\<in>set (addToAggregationBuffer trade now buf). record_consistent (snd e)"
proof (cases "Map_get buf (getAggregationKey trade)")
  case None
  then show ?thesis
    using assms set_Map_set record_consistent_new
    by (fastforce simp: addToAggregationBuffer_def Let_def)
next
  case (Some existing)
  then have "record_consistent existing"
    using assms Map_get_in_set by fastforce
  from record_consistent_push[OF this, where trade=trade and now=now] Some show ?thesis
    using assms set_Map_set
    by (fastforce simp: addToAggregationBuffer_def Let_def)
qed

lemma ready_loop_snd:
  "snd (ready_loop now windowMs es ready m) =
     filter (\<lambda>e. fst e \<notin> fst ` {x \<in> set es. now - firstTradeTime (snd x) \<ge> windowMs}) m"
proof (induction es arbitrary: ready m)
  case Nil
  then show ?case by simp
next
  case (Cons a es)
  obtain k agg where a: "a = (k, agg)" by (cases a)
  show ?case
  proof (cases "now - firstTradeTime agg \<ge> windowMs")
    case True
    have "snd (ready_loop now windowMs (a # es) ready m) =
        filter (\<lambda>e. fst e \<notin> fst ` {x \<in> set es. now - firstTradeTime (snd x) \<ge> windowMs})
          (filter (\<lambda>e. fst e \<noteq> k) m)"
      using True a by (simp add: Cons.IH Map_delete_def)
    also have "\<dots> = filter (\<lambda>e. fst e \<notin> fst ` {x \<in> set (a # es). now - firstTradeTime (snd x) \<ge> windowMs}) m"
      using True a by (auto intro!: filter_cong simp: image_iff)
    finally show ?thesis .
  next
    case False
    have "snd (ready_loop now windowMs (a # es) ready m) =
        filter (\<lambda>e. fst e \<notin> fst ` {x \<in> set es. now - firstTradeTime (snd x) \<ge> windowMs}) m"
      using False a by (simp add: Cons.IH)
    also have "\<dots> = filter (\<lambda>e. fst e \<notin> fst ` {x \<in> set (a # es). now - firstTradeTime (snd x) \<ge> windowMs}) m"
      using False a by (auto intro!: filter_cong simp: image_iff)
    finally show ?thesis .
  qed
qed

lemma getReady_subset: "set (snd (getReadyAggregatedTrades windowSeconds now buf)) \<subseteq> set buf"
  by (simp add: getReadyAggregatedTrades_def ready_loop_snd)

lemma run_buffer_consistent:
  "\<forall>e\<in>set buf. record_consistent (snd e) \<Longrightarrow>
     \<forall>e\<in>set (run_buffer ops buf). record_consistent (snd e)"
proof (induction ops arbitrary: buf)
  case Nil
  then show ?case by simp
next
  case (Cons op ops)
  show ?case
  proof (cases op)
    case (Add trade now)
    then show ?thesis
      using Cons.IH[OF addToAggregationBuffer_consistent[OF Cons.prems]] by simp
  next
    case (Flush windowSeconds now)
    have "\<forall>e\<in>set (snd (getReadyAggregatedTrades windowSeconds now buf)). record_consistent (snd e)"
      using Cons.prems getReady_subset by blast
    then show ?thesis
      using Cons.IH Flush by simp
  qed
qed

lemma addToAggregationBuffer_existing:
  assumes "Map_get buf (getAggregationKey trade) = Some r"
  shows "\<exists>r'. Map_get (addToAggregationBuffer trade now buf) (getAggregationKey trade) = Some r' \<and>
     trades r' = trades r @ [trade] \<and>
     totalUsdcSize r' = dadd (totalUsdcSize r) (or0 (usdcSize trade)) \<and>
     averagePrice r' =
       (if totalUsdcSize r' > 0 then ddiv (totalValue (trades r')) (totalUsdcSize r')
        else or0 (price trade)) \<and>
     firstTradeTime r' = firstTradeTime r \<and> lastTradeTime r' = now"
  using assms by (simp add: addToAggregationBuffer_def Let_def Map_get_set_same)

lemma addToAggregationBuffer_created:
  assumes "Map_get buf (getAggregationKey trade) = None"
  shows "\<exists>r'. Map_get (addToAggregationBuffer trade now buf) (getAggregationKey trade) = Some r' \<and>
     trades r' = [trade] \<and> totalUsdcSize r' = or0 (usdcSize trade) \<and>
     averagePrice r' = or0 (price trade) \<and> firstTradeTime r' = now \<and> lastTradeTime r' = now"
  using assms by (simp add: addToAggregationBuffer_def Let_def Map_get_set_same)

lemma addToAggregationBuffer_others:
  assumes "k \<noteq> getAggregationKey trade"
  shows "Map_get (addToAggregationBuffer trade now buf) k = Map_get buf k"
  using assms
  by (simp add: addToAggregationBuffer_def Let_def Map_get_set_other split: option.splits)

text \<open>
  Claim C7, as amended. Start from the empty buffer and run any sequence of additions and
  flushes. After a further \<^verbatim>\<open>addToAggregationBuffer\<close>, every record of the buffer has
  \<open>totalUsdcSize\<close> equal to the running sum of \<^verbatim>\<open>usdcSize\<close> over its trades in arrival order,
  each addition rounded to a double; its \<open>averagePrice\<close> is the price of its only trade, or
  else, when the total is positive, the rounded quotient of the running sum of the rounded
  products \<^verbatim>\<open>usdcSize * price\<close> by the total. On any buffer, a call for a key that has a
  record appends the trade to the trades of that record, adds its \<^verbatim>\<open>usdcSize\<close> to the total,
  recomputes the average from the trades, and leaves \<open>firstTradeTime\<close> as it was; a call for
  a new key creates a record with that one trade, its \<^verbatim>\<open>usdcSize\<close> and \<^verbatim>\<open>price\<close>, and
  \<open>firstTradeTime = now\<close>; the records of all other keys are untouched. (The sibling in
  \<^verbatim>\<open>services/tradeExecutor.ts\<close> makes the same updates without the \<^verbatim>\<open>|| 0\<close> defaults and
  without the test for a positive total.)
\<close>

theorem aggregation_record_invariant:
  "(\<forall>e\<in>set (addToAggregationBuffer trade now (run_buffer ops [])). record_consistent (snd e)) \<and>
   (\<forall>r. Map_get buf (getAggregationKey trade) = Some r \<longrightarrow>
      (\<exists>r'. Map_get (addToAggregationBuffer trade now buf) (getAggregationKey trade) = Some r' \<and>
         trades r' = trades r @ [trade] \<and>
         totalUsdcSize r' = dadd (totalUsdcSize r) (or0 (usdcSize trade)) \<and>
         averagePrice r' =
           (if totalUsdcSize r' > 0 then ddiv (totalValue (trades r')) (totalUsdcSize r')
            else or0 (price trade)) \<and>
         firstTradeTime r' = firstTradeTime r \<and> lastTradeTime r' = now)) \<and>
   (Map_get buf (getAggregationKey trade) = None \<longrightarrow>
      (\<exists>r'. Map_get (addToAggregationBuffer trade now buf) (getAggregationKey trade) = Some r' \<and>
         trades r' = [trade] \<and> totalUsdcSize r' = or0 (usdcSize trade) \<and>
         averagePrice r' = or0 (price trade) \<and> firstTradeTime r' = now \<and> lastTradeTime r' = now)) \<and>
   (\<forall>k. k \<noteq> getAggregationKey trade \<longrightarrow>
      Map_get (addToAggregationBuffer trade now buf) k = Map_get buf k)"
proof -
  have "\<forall>e\<in>set (run_buffer ops []). record_consistent (snd e)"
    by (rule run_buffer_consistent) simp
  then have "\<forall>e\<in>set (addToAggregationBuffer trade now (run_buffer ops [])). record_consistent (snd e)"
    by (rule addToAggregationBuffer_consistent)
  then show ?thesis
    using addToAggregationBuffer_existing[of buf trade _ now]
      addToAggregationBuffer_created[of buf trade now]
      addToAggregationBuffer_others[of _ trade now buf]
    by blast
qed

text \<open>Rounding leaves these doubles as they are.\<close>

lemma fl_samples:
  "fl 1 = 1" "fl (1/2) = 1/2" "fl (1/4) = 1/4" "fl (3/8) = 3/8" "fl (5/8) = 5/8" "fl (5/4) = 5/4"
  by (simp_all add: fl_def round_half_even_def pow2_def eval_nat_numeral)

theorem aggregation_record_invariant_witness:
  "addToAggregationBuffer (sample_trade ''BUY'' 1 (1/2) (3/4)) 20
      (run_buffer [Add (sample_trade ''BUY'' 1 (1/2) (1/2)) 10] [])
    = [(''0xleader:cond-1:asset-1:BUY'',
        \<lparr>agg_userAddress = ''0xleader'', agg_conditionId = ''cond-1'', agg_asset = ''asset-1'',
         agg_side = ''BUY'', agg_slug = None, agg_eventSlug = None,
         trades = [sample_trade ''BUY'' 1 (1/2) (1/2), sample_trade ''BUY'' 1 (1/2) (3/4)],
         totalUsdcSize = 1, averagePrice = 5/8, firstTradeTime = 10, lastTradeTime = 20\<rparr>)] \<and>
   Map_get (run_buffer [Add (sample_trade ''BUY'' 1 (1/2) (1/2)) 10] []) ''0xleader:cond-1:asset-1:BUY''
    = Some \<lparr>agg_userAddress = ''0xleader'', agg_conditionId = ''cond-1'', agg_asset = ''asset-1'',
         agg_side = ''BUY'', agg_slug = None, agg_eventSlug = None,
         trades = [sample_trade ''BUY'' 1 (1/2) (1/2)],
         totalUsdcSize = 1/2, averagePrice = 1/2, firstTradeTime = 10, lastTradeTime = 10\<rparr> \<and>
   double_sum [1/2, 1/2] = 1 \<and>
   ddiv (double_sum [0, dmul (1/2) (1/2), dmul (1/2) (3/4)]) 1 = 5/8 \<and>
   Map_get ([] :: (string, AggregatedTrade) js_map) ''0xleader:cond-1:asset-1:BUY'' = None \<and>
   getAggregationKey (sample_trade ''BUY'' 1 (1/2) (1/2)) = ''0xleader:cond-1:asset-1:BUY'' \<and>
   addToAggregationBuffer (sample_trade ''BUY'' 1 (1/2) (1/2)) 10 []
    = [(''0xleader:cond-1:asset-1:BUY'',
        \<lparr>agg_userAddress = ''0xleader'', agg_conditionId = ''cond-1'', agg_asset = ''asset-1'',
         agg_side = ''BUY'', agg_slug = None, agg_eventSlug = None,
         trades = [sample_trade ''BUY'' 1 (1/2) (1/2)],
         totalUsdcSize = 1/2, averagePrice = 1/2, firstTradeTime = 10, lastTradeTime = 10\<rparr>)]"
  using aggregation_record_invariant
    [of "sample_trade ''BUY'' 1 (1/2) (3/4)" 20 "[Add (sample_trade ''BUY'' 1 (1/2) (1/2)) 10]"
        "run_buffer [Add (sample_trade ''BUY'' 1 (1/2) (1/2)) 10] []"]
    aggregation_record_invariant [of "sample_trade ''BUY'' 1 (1/2) (1/2)" 10 "[]" "[]"]
  by (simp add: addToAggregationBuffer_def getAggregationKey_def sample_trade_def Let_def
      Map_get_def or0_def totalValue_def double_sum_def dadd_def dmul_def ddiv_def fl_samples)

text \<open>
  Claim C7 as stated has the total equal to the sum of the contributions. Two BUYs of
  \<^verbatim>\<open>0.1\<close> and \<^verbatim>\<open>0.2\<close> make a record whose total is the double \<^verbatim>\<open>0.30000000000000004\<close>,
  which is not the sum of the two doubles.
\<close>

lemma decimal_literals: "fl (1/10) = double_0_1" "fl (2/10) = double_0_2"
  by (simp_all add: double_0_1_def double_0_2_def fl_def round_half_even_def pow2_def
      eval_nat_numeral)

lemma tenths:
  "dadd double_0_1 double_0_2 = 1351079888211149 / 4503599627370496"
  "dmul double_0_1 (1/2) = 3602879701896397 / 72057594037927936"
  "dmul double_0_2 (1/2) = 3602879701896397 / 36028797018963968"
  "dadd 0 (3602879701896397 / 72057594037927936) = 3602879701896397 / 72057594037927936"
  "dadd (3602879701896397 / 72057594037927936) (3602879701896397 / 36028797018963968)
     = 1351079888211149 / 9007199254740992"
  "ddiv (1351079888211149 / 9007199254740992) (1351079888211149 / 4503599627370496) = 1/2"
  by (simp_all add: dadd_def dmul_def ddiv_def double_0_1_def double_0_2_def fl_def
      round_half_even_def pow2_def eval_nat_numeral)

theorem aggregation_rounded_total_counterexample:
  "map (\<lambda>e. (trades (snd e), totalUsdcSize (snd e)))
      (addToAggregationBuffer (sample_trade ''BUY'' 1 double_0_2 (1/2)) 20
        (addToAggregationBuffer (sample_trade ''BUY'' 1 double_0_1 (1/2)) 10 []))
    = [([sample_trade ''BUY'' 1 double_0_1 (1/2), sample_trade ''BUY'' 1 double_0_2 (1/2)],
        1351079888211149 / 4503599627370496)] \<and>
   sum_list (map (\<lambda>t. or0 (usdcSize t))
      [sample_trade ''BUY'' 1 double_0_1 (1/2), sample_trade ''BUY'' 1 double_0_2 (1/2)])
    = 10808639105689191 / 36028797018963968 \<and>
   (1351079888211149 / 4503599627370496 :: real) \<noteq> 10808639105689191 / 36028797018963968"
proof -
  have "addToAggregationBuffer (sample_trade ''BUY'' 1 double_0_2 (1/2)) 20
        (addToAggregationBuffer (sample_trade ''BUY'' 1 double_0_1 (1/2)) 10 [])
    = [(''0xleader:cond-1:asset-1:BUY'',
        \<lparr>agg_userAddress = ''0xleader'', agg_conditionId = ''cond-1'', agg_asset = ''asset-1'',
         agg_side = ''BUY'', agg_slug = None, agg_eventSlug = None,
         trades = [sample_trade ''BUY'' 1 double_0_1 (1/2), sample_trade ''BUY'' 1 double_0_2 (1/2)],
         totalUsdcSize = 1351079888211149 / 4503599627370496, averagePrice = 1/2,
         firstTradeTime = 10, lastTradeTime = 20\<rparr>)]"
    by (simp add: addToAggregationBuffer_def getAggregationKey_def sample_trade_def Let_def
        Map_get_def or0_def totalValue_def tenths)
  moreover have "sum_list (map (\<lambda>t. or0 (usdcSize t))
      [sample_trade ''BUY'' 1 double_0_1 (1/2), sample_trade ''BUY'' 1 double_0_2 (1/2)])
    = 10808639105689191 / 36028797018963968"
    by (simp add: sample_trade_def or0_def double_0_1_def double_0_2_def)
  ultimately show ?thesis
    by simp
qed

section \<open>The flusher\<close>

lemma ready_loop_fst:
  "fst (ready_loop now windowMs es ready m) =
     ready @ map snd (filter (\<lambda>e. now - firstTradeTime (snd e) \<ge> windowMs \<and>
        totalUsdcSize (snd e) \<ge> TRADE_AGGREGATION_MIN_TOTAL_USD) es)"
  by (induction es arbitrary: ready m) auto

lemma getReadyAggregatedTrades_eq:
  assumes "Map_ok buf"
  shows "getReadyAggregatedTrades windowSeconds now buf =
     (map snd (filter (\<lambda>e. window_elapsed windowSeconds now (snd e) \<and>
        totalUsdcSize (snd e) \<ge> TRADE_AGGREGATION_MIN_TOTAL_USD) buf),
      filter (\<lambda>e. \<not> window_elapsed windowSeconds now (snd e)) buf)"
proof -
  have "snd (getReadyAggregatedTrades windowSeconds now buf) =
      filter (\<lambda>e. \<not> window_elapsed windowSeconds now (snd e)) buf"
    using filter_keys_distinct[OF assms, of "\<lambda>x. now - firstTradeTime (snd x) \<ge> windowSeconds * 1000"]
    by (simp add: getReadyAggregatedTrades_def ready_loop_snd window_elapsed_def)
  moreover have "fst (getReadyAggregatedTrades windowSeconds now buf) =
      map snd (filter (\<lambda>e. window_elapsed windowSeconds now (snd e) \<and>
        totalUsdcSize (snd e) \<ge> TRADE_AGGREGATION_MIN_TOTAL_USD) buf)"
    by (simp add: getReadyAggregatedTrades_def ready_loop_fst window_elapsed_def)
  ultimately show ?thesis
    by (simp add: prod_eq_iff)
qed

lemma doAggregatedTrading_frame:
  "snd (doAggregatedTrading ext aggs w) = w\<lparr>posted := posted (snd (doAggregatedTrading ext aggs w))\<rparr>"
proof (induction aggs arbitrary: w)
  case Nil
  then show ?case by simp
next
  case (Cons agg rest)
  let ?w1 = "w\<lparr>posted := posted w @
      [\<lparr>o_side = side_word (Some (agg_side agg)),
        o_trade = syntheticTrade agg (hd (trades agg)), o_user = agg_userAddress agg\<rparr>]\<rparr>"
  have "snd (doAggregatedTrading ext rest ?w1) =
      ?w1\<lparr>posted := posted (snd (doAggregatedTrading ext rest ?w1))\<rparr>"
    by (rule Cons.IH)
  then have "snd (doAggregatedTrading ext rest ?w1) =
      w\<lparr>posted := posted (snd (doAggregatedTrading ext rest ?w1))\<rparr>"
    by simp
  then show ?case
    by (cases "trades agg"; cases "ext agg") simp_all
qed

lemma order_of_eq:
  "order_of agg = \<lparr>o_side = side_word (Some (agg_side agg)),
      o_trade = syntheticTrade agg (hd (trades agg)), o_user = agg_userAddress agg\<rparr>"
  by (simp add: order_of_def syntheticTrade_def)

lemma doAggregatedTrading_prefix:
  "\<exists>n. posted (snd (doAggregatedTrading ext aggs w)) = posted w @ take n (map order_of aggs)"
proof (induction aggs arbitrary: w)
  case Nil
  then show ?case by simp
next
  case (Cons agg rest)
  let ?w1 = "w\<lparr>posted := posted w @ [order_of agg]\<rparr>"
  from Cons.IH[of ?w1] obtain n where
    n: "posted (snd (doAggregatedTrading ext rest ?w1)) = posted ?w1 @ take n (map order_of rest)"
    by blast
  have go: "posted (snd (doAggregatedTrading ext rest ?w1))
      = posted w @ take (Suc n) (map order_of (agg # rest))"
    by (simp only: n) simp
  show ?case
  proof (cases "trades agg")
    case Nil
    have "snd (doAggregatedTrading ext (agg # rest) w) = w"
      by (simp add: Nil)
    then have "posted (snd (doAggregatedTrading ext (agg # rest) w))
        = posted w @ take 0 (map order_of (agg # rest))"
      by simp
    then show ?thesis by (rule exI)
  next
    case (Cons firstTrade more)
    have same: "\<lparr>o_side = side_word (Some (agg_side agg)),
        o_trade = syntheticTrade agg firstTrade, o_user = agg_userAddress agg\<rparr> = order_of agg"
      by (simp add: order_of_eq Cons)
    show ?thesis
    proof (cases "ext agg")
      case Returns
      have "snd (doAggregatedTrading ext (agg # rest) w) = snd (doAggregatedTrading ext rest ?w1)"
        by (simp add: Cons Returns same)
      then have "posted (snd (doAggregatedTrading ext (agg # rest) w))
          = posted w @ take (Suc n) (map order_of (agg # rest))"
        by (simp only: go)
      then show ?thesis by (rule exI)
    next
      case FetchThrows
      have "snd (doAggregatedTrading ext (agg # rest) w) = w"
        by (simp add: Cons FetchThrows)
      then have "posted (snd (doAggregatedTrading ext (agg # rest) w))
          = posted w @ take 0 (map order_of (agg # rest))"
        by simp
      then show ?thesis by (rule exI)
    next
      case PostThrows
      have "snd (doAggregatedTrading ext (agg # rest) w) = ?w1"
        by (simp add: Cons PostThrows same)
      then have "posted (snd (doAggregatedTrading ext (agg # rest) w))
          = posted w @ take (Suc 0) (map order_of (agg # rest))"
        by simp
      then show ?thesis by (rule exI)
    qed
  qed
qed

lemma doAggregatedTrading_all:
  assumes "\<forall>agg\<in>set aggs. trades agg \<noteq> [] \<and> ext agg = Returns"
  shows "doAggregatedTrading ext aggs w = (False, w\<lparr>posted := posted w @ map order_of aggs\<rparr>)"
  using assms
proof (induction aggs arbitrary: w)
  case Nil
  then show ?case by simp
next
  case (Cons agg rest)
  from Cons.prems have ret: "ext agg = Returns" and ne: "trades agg \<noteq> []"
    and rest: "\<forall>a\<in>set rest. trades a \<noteq> [] \<and> ext a = Returns"
    by simp_all
  obtain firstTrade more where t: "trades agg = firstTrade # more"
    using ne by (cases "trades agg") auto
  let ?w1 = "w\<lparr>posted := posted w @ [order_of agg]\<rparr>"
  have "doAggregatedTrading ext (agg # rest) w = doAggregatedTrading ext rest ?w1"
    by (simp add: t ret order_of_eq)
  also have "\<dots> = (False, ?w1\<lparr>posted := posted ?w1 @ map order_of rest\<rparr>)"
    using rest by (rule Cons.IH)
  also have "\<dots> = (False, w\<lparr>posted := posted w @ map order_of (agg # rest)\<rparr>)"
    by simp
  finally show ?case .
qed

text \<open>
  Claim C2, as amended. Take a tick of the flusher that runs (aggregation enabled, worker
  running, no flush in progress) on a well-formed buffer. Every record whose window has elapsed
  (\<open>now - firstTradeTime \<ge> windowSeconds \<sqdot> 1000\<close>) is deleted from the buffer and every other
  record stays. The orders submitted by the tick are a prefix of the list that has, for each
  elapsed record with \<open>totalUsdcSize \<ge> 1\<close> in buffer order, its one synthetic order: the first
  trade of the record with \<^verbatim>\<open>usdcSize\<close>, \<^verbatim>\<open>price\<close> and \<^verbatim>\<open>side\<close> replaced by the aggregated
  values. No order is submitted for any other record, and none twice. When the fetches and the
  submissions of the tick all return, the orders submitted are that whole list: exactly one
  order for an elapsed record if and only if its total reaches the minimum.
\<close>

theorem flusherTick_expired_records:
  assumes enabled: "TRADE_AGGREGATION_ENABLED cfg"
    and running: "isRunning w" and idle: "\<not> aggregationFlushInProgress w"
    and ok: "Map_ok (tradeAggregationBuffer w)"
  shows "tradeAggregationBuffer (flusherTick cfg ext now w) =
      filter (\<lambda>e. \<not> window_elapsed (TRADE_AGGREGATION_WINDOW_SECONDS cfg) now (snd e))
        (tradeAggregationBuffer w) \<and>
    (\<exists>n. posted (flusherTick cfg ext now w) =
      posted w @ take n (map order_of (map snd
        (filter (\<lambda>e. window_elapsed (TRADE_AGGREGATION_WINDOW_SECONDS cfg) now (snd e) \<and>
            totalUsdcSize (snd e) \<ge> TRADE_AGGREGATION_MIN_TOTAL_USD)
          (tradeAggregationBuffer w))))) \<and>
    ((\<forall>e\<in>set (tradeAggregationBuffer w). trades (snd e) \<noteq> [] \<and> ext (snd e) = Returns) \<longrightarrow>
      posted (flusherTick cfg ext now w) =
      posted w @ map order_of (map snd
        (filter (\<lambda>e. window_elapsed (TRADE_AGGREGATION_WINDOW_SECONDS cfg) now (snd e) \<and>
            totalUsdcSize (snd e) \<ge> TRADE_AGGREGATION_MIN_TOTAL_USD)
          (tradeAggregationBuffer w)))) \<and>
    localQueue (flusherTick cfg ext now w) = localQueue w \<and>
    paperTrader (flusherTick cfg ext now w) = paperTrader w \<and>
    \<not> aggregationFlushInProgress (flusherTick cfg ext now w)"
proof -
  let ?W = "TRADE_AGGREGATION_WINDOW_SECONDS cfg"
  let ?ready = "map snd (filter (\<lambda>e. window_elapsed ?W now (snd e) \<and>
      totalUsdcSize (snd e) \<ge> TRADE_AGGREGATION_MIN_TOTAL_USD) (tradeAggregationBuffer w))"
  let ?buf = "filter (\<lambda>e. \<not> window_elapsed ?W now (snd e)) (tradeAggregationBuffer w)"
  let ?w1 = "w\<lparr>tradeAggregationBuffer := ?buf\<rparr>"
  let ?w2 = "?w1\<lparr>aggregationFlushInProgress := True\<rparr>"
  let ?r = "snd (doAggregatedTrading ext ?ready ?w2)"
  have get: "getReadyAggregatedTrades ?W now (tradeAggregationBuffer w) = (?ready, ?buf)"
    using ok by (rule getReadyAggregatedTrades_eq)
  have tick: "flusherTick cfg ext now w =
      (if length ?ready = 0 then ?w1 else ?r\<lparr>aggregationFlushInProgress := False\<rparr>)"
    using enabled running idle by (simp add: flusherTick_def get Let_def)
  have frame: "?r = ?w2\<lparr>posted := posted ?r\<rparr>"
    by (rule doAggregatedTrading_frame)
  obtain n where n: "posted ?r = posted ?w2 @ take n (map order_of ?ready)"
    using doAggregatedTrading_prefix by blast
  have all: "posted ?r = posted ?w2 @ map order_of ?ready"
    if "\<forall>e\<in>set (tradeAggregationBuffer w). trades (snd e) \<noteq> [] \<and> ext (snd e) = Returns"
  proof -
    have "\<forall>agg\<in>set ?ready. trades agg \<noteq> [] \<and> ext agg = Returns"
      using that by auto
    then show ?thesis
      by (simp add: doAggregatedTrading_all)
  qed
  show ?thesis
  proof (cases "length ?ready = 0")
    case True
    then have t: "flusherTick cfg ext now w = ?w1"
      by (simp add: tick)
    have "posted ?w1 = posted w @ take 0 (map order_of ?ready)" by simp
    then have "\<exists>n. posted ?w1 = posted w @ take n (map order_of ?ready)" by (rule exI)
    moreover have "posted ?w1 = posted w @ map order_of ?ready"
      using True by simp
    ultimately show ?thesis
      using idle unfolding t by simp
  next
    case False
    then have t: "flusherTick cfg ext now w = ?r\<lparr>aggregationFlushInProgress := False\<rparr>"
      by (simp add: tick)
    have fields: "tradeAggregationBuffer ?r = ?buf" "localQueue ?r = localQueue w"
      "paperTrader ?r = paperTrader w"
      by (subst frame, simp)+
    have "posted ?r = posted w @ take n (map order_of ?ready)"
      using n by simp
    then have "\<exists>n. posted ?r = posted w @ take n (map order_of ?ready)" by (rule exI)
    moreover have "(\<forall>e\<in>set (tradeAggregationBuffer w). trades (snd e) \<noteq> [] \<and> ext (snd e) = Returns)
        \<longrightarrow> posted ?r = posted w @ map order_of ?ready"
      using all by simp
    ultimately show ?thesis
      unfolding t using fields by simp
  qed
qed

lemma sample_buffer:
  "tradeAggregationBuffer sample_worker =
     [(''0xleader:cond-1:asset-1:BUY'',
       \<lparr>agg_userAddress = ''0xleader'', agg_conditionId = ''cond-1'', agg_asset = ''asset-1'',
        agg_side = ''BUY'', agg_slug = None, agg_eventSlug = None,
        trades = [sample_trade ''BUY'' 1 (1/2) (1/2), sample_trade ''BUY'' 1 (3/4) (1/2)],
        totalUsdcSize = 5/4, averagePrice = 1/2, firstTradeTime = 10, lastTradeTime = 20\<rparr>),
      (''0xleader:cond-2:asset-1:BUY'',
       \<lparr>agg_userAddress = ''0xleader'', agg_conditionId = ''cond-2'', agg_asset = ''asset-1'',
        agg_side = ''BUY'', agg_slug = None, agg_eventSlug = None,
        trades = [(sample_trade ''BUY'' 1 (1/4) (1/2))\<lparr>conditionId := ''cond-2''\<rparr>],
        totalUsdcSize = 1/4, averagePrice = 1/2, firstTradeTime = 30, lastTradeTime = 30\<rparr>)]"
  by (simp add: sample_worker_def new_worker_def addToAggregationBuffer_def getAggregationKey_def
      sample_trade_def Let_def Map_get_def or0_def totalValue_def dadd_def dmul_def ddiv_def
      fl_samples)

theorem flusherTick_expired_records_witness:
  "TRADE_AGGREGATION_ENABLED sample_config \<and>
   isRunning sample_worker \<and>
   \<not> aggregationFlushInProgress sample_worker \<and>
   Map_ok (tradeAggregationBuffer sample_worker) \<and>
   map fst (tradeAggregationBuffer (flusherTick sample_config (\<lambda>agg. Returns) 2010 sample_worker))
     = [''0xleader:cond-2:asset-1:BUY''] \<and>
   posted (flusherTick sample_config (\<lambda>agg. Returns) 2010 sample_worker)
     = [\<lparr>o_side = ''buy'',
         o_trade = (sample_trade ''BUY'' 1 (1/2) (1/2))\<lparr>usdcSize := Some (5/4), price := Some (1/2),
                      side := Some ''BUY''\<rparr>,
         o_user = ''0xleader''\<rparr>] \<and>
   tradeAggregationBuffer (flusherTick sample_config (\<lambda>agg. Returns) 2030 sample_worker) = [] \<and>
   posted (flusherTick sample_config (\<lambda>agg. Returns) 2030 sample_worker)
     = posted (flusherTick sample_config (\<lambda>agg. Returns) 2010 sample_worker) \<and>
   tradeAggregationBuffer (flusherTick sample_config (\<lambda>agg. Returns) 2009 sample_worker)
     = tradeAggregationBuffer sample_worker \<and>
   posted (flusherTick sample_config (\<lambda>agg. Returns) 2009 sample_worker) = []"
proof -
  have h1: "TRADE_AGGREGATION_ENABLED sample_config" "isRunning sample_worker"
    "\<not> aggregationFlushInProgress sample_worker"
    by (simp_all add: sample_config_def sample_worker_def new_worker_def)
  have h2: "Map_ok (tradeAggregationBuffer sample_worker)"
    by (simp add: sample_buffer Map_ok_def)
  note hyp = h1 h2
  have all: "\<forall>e\<in>set (tradeAggregationBuffer sample_worker).
      trades (snd e) \<noteq> [] \<and> (\<lambda>agg. Returns) (snd e) = Returns"
    by (simp add: sample_buffer)
  have p0: "posted sample_worker = []"
    by (simp add: sample_worker_def new_worker_def)
  note t1 = flusherTick_expired_records[OF hyp, of "\<lambda>agg. Returns" 2010]
  note t2 = flusherTick_expired_records[OF hyp, of "\<lambda>agg. Returns" 2030]
  note t3 = flusherTick_expired_records[OF hyp, of "\<lambda>agg. Returns" 2009]
  have b1: "map fst (tradeAggregationBuffer (flusherTick sample_config (\<lambda>agg. Returns) 2010 sample_worker))
     = [''0xleader:cond-2:asset-1:BUY'']"
    using t1 by (simp add: sample_buffer window_elapsed_def sample_config_def)
  have o1: "posted (flusherTick sample_config (\<lambda>agg. Returns) 2010 sample_worker)
     = [\<lparr>o_side = ''buy'',
         o_trade = (sample_trade ''BUY'' 1 (1/2) (1/2))\<lparr>usdcSize := Some (5/4), price := Some (1/2),
                      side := Some ''BUY''\<rparr>,
         o_user = ''0xleader''\<rparr>]"
    using t1 all p0
    by (simp add: sample_buffer window_elapsed_def sample_config_def order_of_def side_word_def
        TRADE_AGGREGATION_MIN_TOTAL_USD_def)
  have b2: "tradeAggregationBuffer (flusherTick sample_config (\<lambda>agg. Returns) 2030 sample_worker) = []"
    using t2 by (simp add: sample_buffer window_elapsed_def sample_config_def)
  have o2: "posted (flusherTick sample_config (\<lambda>agg. Returns) 2030 sample_worker)
     = [\<lparr>o_side = ''buy'',
         o_trade = (sample_trade ''BUY'' 1 (1/2) (1/2))\<lparr>usdcSize := Some (5/4), price := Some (1/2),
                      side := Some ''BUY''\<rparr>,
         o_user = ''0xleader''\<rparr>]"
    using t2 all p0
    by (simp add: sample_buffer window_elapsed_def sample_config_def order_of_def side_word_def
        TRADE_AGGREGATION_MIN_TOTAL_USD_def)
  have b3: "tradeAggregationBuffer (flusherTick sample_config (\<lambda>agg. Returns) 2009 sample_worker)
     = tradeAggregationBuffer sample_worker"
    using t3 by (simp add: sample_buffer window_elapsed_def sample_config_def)
  have o3: "posted (flusherTick sample_config (\<lambda>agg. Returns) 2009 sample_worker) = []"
    using t3 all p0
    by (simp add: sample_buffer window_elapsed_def sample_config_def)
  show ?thesis
    using hyp b1 o1 b2 o2 b3 o3 by simp
qed

text \<open>
  Claim C2 as stated has one order submitted for every elapsed record whose total reaches the
  minimum. The record of the first market has elapsed at time 2010 with a total of 1.25; when
  the position fetch of \<^verbatim>\<open>doAggregatedTrading\<close> throws, the tick has deleted the record and
  submits nothing for it.
\<close>

theorem flusherTick_fetch_failure_counterexample:
  "TRADE_AGGREGATION_ENABLED sample_config \<and>
   isRunning sample_worker \<and>
   \<not> aggregationFlushInProgress sample_worker \<and>
   map (\<lambda>e. (fst e, totalUsdcSize (snd e), firstTradeTime (snd e)))
       (tradeAggregationBuffer sample_worker)
     = [(''0xleader:cond-1:asset-1:BUY'', 5/4, 10), (''0xleader:cond-2:asset-1:BUY'', 1/4, 30)] \<and>
   (2010::real) - 10 \<ge> TRADE_AGGREGATION_WINDOW_SECONDS sample_config * 1000 \<and>
   (5/4::real) \<ge> TRADE_AGGREGATION_MIN_TOTAL_USD \<and>
   posted sample_worker = [] \<and>
   posted (flusherTick sample_config (\<lambda>agg. FetchThrows) 2010 sample_worker) = [] \<and>
   map fst (tradeAggregationBuffer (flusherTick sample_config (\<lambda>agg. FetchThrows) 2010 sample_worker))
     = [''0xleader:cond-2:asset-1:BUY'']"
proof -
  have w: "sample_worker = \<lparr>localQueue = [], tradeAggregationBuffer = tradeAggregationBuffer sample_worker,
      paperTrader = None, posted = [], isRunning = True, aggregationFlushInProgress = False\<rparr>"
    by (simp add: sample_worker_def new_worker_def sample_config_def)
  have "flusherTick sample_config (\<lambda>agg. FetchThrows) 2010 sample_worker =
      \<lparr>localQueue = [], tradeAggregationBuffer = [(''0xleader:cond-2:asset-1:BUY'', snd (tradeAggregationBuffer sample_worker ! 1))],
       paperTrader = None, posted = [], isRunning = True, aggregationFlushInProgress = False\<rparr>"
    by (subst w)
      (simp add: sample_buffer flusherTick_def getReadyAggregatedTrades_def Map_delete_def
        sample_config_def TRADE_AGGREGATION_MIN_TOTAL_USD_def)
  then show ?thesis
    by (simp add: sample_buffer sample_config_def TRADE_AGGREGATION_MIN_TOTAL_USD_def)
      (simp add: sample_worker_def new_worker_def sample_config_def)
qed

section \<open>The dequeue loop\<close>

lemma addToAggregationBuffer_changes: "addToAggregationBuffer trade now buf \<noteq> buf"
proof (cases "Map_get buf (getAggregationKey trade)")
  case None
  then have "getAggregationKey trade \<notin> fst ` set buf"
    by (simp add: Map_get_def map_of_eq_None_iff)
  then have "length (addToAggregationBuffer trade now buf) = Suc (length buf)"
    using None by (simp add: addToAggregationBuffer_def Let_def Map_set_absent)
  then show ?thesis by auto
next
  case (Some existing)
  let ?k = "getAggregationKey trade"
  show ?thesis
  proof
    assume same: "addToAggregationBuffer trade now buf = buf"
    have "\<exists>r'. Map_get (addToAggregationBuffer trade now buf) ?k = Some r' \<and>
        trades r' = trades existing @ [trade]"
      using Some by (simp add: addToAggregationBuffer_def Let_def Map_get_set_same)
    with same Some have "trades existing = trades existing @ [trade]"
      by simp
    then show False by simp
  qed
qed

lemma doTrading_buffer:
  "tradeAggregationBuffer (snd (doTrading cfg ext ts w)) = tradeAggregationBuffer w"
proof (induction ts arbitrary: w)
  case Nil
  then show ?case by simp
next
  case (Cons trade rest)
  show ?case
  proof (cases "if PAPER_TRADING_ENABLED cfg then paperTrader w else None")
    case (Some pt)
    then show ?thesis by (simp add: Cons.IH)
  next
    case None
    then show ?thesis by (cases "ext trade") (simp_all add: Cons.IH)
  qed
qed

text \<open>
  Claim C8. With aggregation enabled, a round of the dequeue loop that finds an activity sends
  it to the aggregation buffer if and only if its side is \<^verbatim>\<open>'BUY'\<close> and its \<^verbatim>\<open>usdcSize\<close>
  (0 when absent) is strictly below 1.00; the buffer changes in exactly that case. Every other
  activity, so every SELL and every BUY of 1.00 or more, leaves the buffer as it is and is
  handed to \<^verbatim>\<open>doTrading\<close> in the same round.
\<close>

theorem dequeueRound_routing:
  assumes queue: "localQueue w = activity # rest" and enabled: "TRADE_AGGREGATION_ENABLED cfg"
  shows "(fst (dequeueRound cfg ext now w) = Buffered \<longleftrightarrow>
        side activity = Some ''BUY'' \<and> or0 (usdcSize activity) < 1) \<and>
    (tradeAggregationBuffer (snd (dequeueRound cfg ext now w)) \<noteq> tradeAggregationBuffer w \<longleftrightarrow>
        side activity = Some ''BUY'' \<and> or0 (usdcSize activity) < 1) \<and>
    (side activity = Some ''BUY'' \<and> or0 (usdcSize activity) < 1 \<longrightarrow>
        snd (dequeueRound cfg ext now w) =
          w\<lparr>localQueue := rest,
            tradeAggregationBuffer := addToAggregationBuffer activity now (tradeAggregationBuffer w)\<rparr>) \<and>
    (\<not> (side activity = Some ''BUY'' \<and> or0 (usdcSize activity) < 1) \<longrightarrow>
        dequeueRound cfg ext now w =
          (Executed, snd (doTrading cfg ext [activity] (w\<lparr>localQueue := rest\<rparr>))))"
proof (cases "side activity = Some ''BUY'' \<and> or0 (usdcSize activity) < 1")
  case True
  then have "dequeueRound cfg ext now w =
      (Buffered, w\<lparr>localQueue := rest,
         tradeAggregationBuffer := addToAggregationBuffer activity now (tradeAggregationBuffer w)\<rparr>)"
    using queue enabled
    by (simp add: dequeueRound_def Let_def TRADE_AGGREGATION_MIN_TOTAL_USD_def)
  then show ?thesis
    using True addToAggregationBuffer_changes by simp
next
  case False
  then have "dequeueRound cfg ext now w =
      (Executed, snd (doTrading cfg ext [activity] (w\<lparr>localQueue := rest\<rparr>)))"
    using queue enabled
    by (auto simp add: dequeueRound_def Let_def TRADE_AGGREGATION_MIN_TOTAL_USD_def
        simp del: doTrading.simps)
  moreover have "tradeAggregationBuffer (snd (doTrading cfg ext [activity] (w\<lparr>localQueue := rest\<rparr>)))
      = tradeAggregationBuffer w"
    by (simp add: doTrading_buffer del: doTrading.simps)
  ultimately show ?thesis
    using False by (auto simp del: doTrading.simps)
qed

theorem dequeueRound_routing_witness:
  "localQueue ((new_worker sample_config)\<lparr>localQueue := [sample_trade ''BUY'' 1 (1/2) (1/2)]\<rparr>)
     = [sample_trade ''BUY'' 1 (1/2) (1/2)] \<and>
   TRADE_AGGREGATION_ENABLED sample_config \<and>
   fst (dequeueRound sample_config (\<lambda>t. Returns) 10
      ((new_worker sample_config)\<lparr>localQueue := [sample_trade ''BUY'' 1 (1/2) (1/2)]\<rparr>)) = Buffered \<and>
   posted (snd (dequeueRound sample_config (\<lambda>t. Returns) 10
      ((new_worker sample_config)\<lparr>localQueue := [sample_trade ''BUY'' 1 (1/2) (1/2)]\<rparr>))) = [] \<and>
   fst (dequeueRound sample_config (\<lambda>t. Returns) 10
      ((new_worker sample_config)\<lparr>localQueue := [sample_trade ''BUY'' 2 1 (1/2)]\<rparr>)) = Executed \<and>
   posted (snd (dequeueRound sample_config (\<lambda>t. Returns) 10
      ((new_worker sample_config)\<lparr>localQueue := [sample_trade ''BUY'' 2 1 (1/2)]\<rparr>)))
     = [\<lparr>o_side = ''buy'', o_trade = sample_trade ''BUY'' 2 1 (1/2), o_user = ''0xleader''\<rparr>] \<and>
   tradeAggregationBuffer (snd (dequeueRound sample_config (\<lambda>t. Returns) 10
      ((new_worker sample_config)\<lparr>localQueue := [sample_trade ''BUY'' 2 1 (1/2)]\<rparr>))) = [] \<and>
   fst (dequeueRound sample_config (\<lambda>t. Returns) 10
      ((new_worker sample_config)\<lparr>localQueue := [sample_trade ''SELL'' 1 (1/2) (1/2)]\<rparr>)) = Executed \<and>
   posted (snd (dequeueRound sample_config (\<lambda>t. Returns) 10
      ((new_worker sample_config)\<lparr>localQueue := [sample_trade ''SELL'' 1 (1/2) (1/2)]\<rparr>)))
     = [\<lparr>o_side = ''sell'', o_trade = sample_trade ''SELL'' 1 (1/2) (1/2), o_user = ''0xleader''\<rparr>]"
  using dequeueRound_routing
      [of "(new_worker sample_config)\<lparr>localQueue := [sample_trade ''BUY'' 1 (1/2) (1/2)]\<rparr>"
          "sample_trade ''BUY'' 1 (1/2) (1/2)" "[]" sample_config "\<lambda>t. Returns" 10]
    dequeueRound_routing
      [of "(new_worker sample_config)\<lparr>localQueue := [sample_trade ''BUY'' 2 1 (1/2)]\<rparr>"
          "sample_trade ''BUY'' 2 1 (1/2)" "[]" sample_config "\<lambda>t. Returns" 10]
    dequeueRound_routing
      [of "(new_worker sample_config)\<lparr>localQueue := [sample_trade ''SELL'' 1 (1/2) (1/2)]\<rparr>"
          "sample_trade ''SELL'' 1 (1/2) (1/2)" "[]" sample_config "\<lambda>t. Returns" 10]
  by (simp add: dequeueRound_def new_worker_def sample_config_def sample_trade_def or0_def
      TRADE_AGGREGATION_MIN_TOTAL_USD_def Let_def side_word_def)

section \<open>The monitor and the dedup key\<close>

lemma processActivity_skipped:
  "skipped (TOO_OLD_SECONDS env) nowMs (activityMs (env_Date_parse env) (timestamp activity)) \<Longrightarrow>
     processActivity env address nowMs detectedNow cacheNow activity st = st"
  by (simp add: processActivity_def Let_def)

text \<open>
  Claim C9, as amended. A numeric timestamp above \<open>10\<^sup>1\<^sup>2\<close> is taken as milliseconds; one of at
  most \<open>10\<^sup>1\<^sup>2\<close> (that value included) is taken as seconds and multiplied by 1000; a string
  is parsed as a date; an unparseable string and a value of any other type give 0. The monitor
  uses 0 as its mark for an unknown timestamp: an activity whose normalised timestamp is 0 is
  skipped whatever its age. An activity whose normalised timestamp is not 0 is skipped exactly
  when \<open>nowMs - activityMs > tooOldSeconds \<sqdot> 1000\<close>, so one whose age equals the threshold is
  kept. A skipped activity leaves the monitor as it was: it is not published and the dedup
  cache is not touched; an activity that is not skipped goes on to \<^verbatim>\<open>checkAndRemember\<close>.
\<close>

theorem timestamp_normalisation_and_age_filter:
  "(n > 1000000000000 \<longrightarrow> activityMs Date_parse (TsNumber n) = n) \<and>
   (n \<le> 1000000000000 \<longrightarrow> activityMs Date_parse (TsNumber n) = n * 1000) \<and>
   (\<forall>parsed. Date_parse str = Some parsed \<longrightarrow> activityMs Date_parse (TsString str) = parsed) \<and>
   (Date_parse str = None \<longrightarrow> activityMs Date_parse (TsString str) = 0) \<and>
   activityMs Date_parse TsOther = 0 \<and>
   skipped tooOld nowMs 0 \<and>
   (ms \<noteq> 0 \<longrightarrow> (skipped tooOld nowMs ms \<longleftrightarrow> nowMs - ms > tooOld * 1000)) \<and>
   (ms \<noteq> 0 \<and> nowMs - ms = tooOld * 1000 \<longrightarrow> \<not> skipped tooOld nowMs ms) \<and>
   (skipped (TOO_OLD_SECONDS env) nowMs (activityMs (env_Date_parse env) (timestamp activity)) \<longrightarrow>
      processActivity env address nowMs detectedNow cacheNow activity st = st) \<and>
   (\<not> skipped (TOO_OLD_SECONDS env) nowMs (activityMs (env_Date_parse env) (timestamp activity)) \<longrightarrow>
      (\<exists>key. activityDedupCache (processActivity env address nowMs detectedNow cacheNow activity st)
         = snd (checkAndRemember key cacheNow (activityDedupCache st))))"
proof -
  have norm: "(n > 1000000000000 \<longrightarrow> activityMs Date_parse (TsNumber n) = n) \<and>
   (n \<le> 1000000000000 \<longrightarrow> activityMs Date_parse (TsNumber n) = n * 1000) \<and>
   (\<forall>parsed. Date_parse str = Some parsed \<longrightarrow> activityMs Date_parse (TsString str) = parsed) \<and>
   (Date_parse str = None \<longrightarrow> activityMs Date_parse (TsString str) = 0) \<and>
   activityMs Date_parse TsOther = 0"
    by (simp add: activityMs_def)
  have age: "skipped tooOld nowMs 0 \<and>
   (ms \<noteq> 0 \<longrightarrow> (skipped tooOld nowMs ms \<longleftrightarrow> nowMs - ms > tooOld * 1000)) \<and>
   (ms \<noteq> 0 \<and> nowMs - ms = tooOld * 1000 \<longrightarrow> \<not> skipped tooOld nowMs ms)"
    by (simp add: skipped_def)
  have kept: "\<exists>key. activityDedupCache (processActivity env address nowMs detectedNow cacheNow activity st)
         = snd (checkAndRemember key cacheNow (activityDedupCache st))"
    if "\<not> skipped (TOO_OLD_SECONDS env) nowMs (activityMs (env_Date_parse env) (timestamp activity))"
  proof -
    let ?q = "\<lparr>transactionHash = transactionHash activity, userAddress = address,
        conditionId = conditionId activity, asset = asset activity, side = side activity,
        price = price activity, size' = size' activity, usdcSize = usdcSize activity,
        timestamp = activityMs (env_Date_parse env) (timestamp activity), slug = slug activity,
        eventSlug = eventSlug activity, detectedAt = Some detectedNow\<rparr>"
    let ?key = "buildActivityDedupKey (env_numToString env) ?q"
    have "activityDedupCache (processActivity env address nowMs detectedNow cacheNow activity st)
         = snd (checkAndRemember ?key cacheNow (activityDedupCache st))"
      using that
      by (cases "checkAndRemember ?key cacheNow (activityDedupCache st)")
        (auto simp: processActivity_def Let_def split: bool.splits)
    then show ?thesis by (rule exI)
  qed
  from norm age kept processActivity_skipped show ?thesis
    by blast
qed


lemma toLowerCase_sample: "toLowerCase ''0xABC'' = ''0xabc''"
  by code_simp

lemma sample_monitor_eq:
  "sample_monitor =
     \<lparr>activityDedupCache = \<lparr>cache = [], ttlMs = 60000, maxEntries = 5000\<rparr>,
      distributorState = \<lparr>workerPorts = [\<lparr>id' = 1, endpoint = Worker 1\<rparr>], roundRobinIndex = 0,
         backlog = [], sent = []\<rparr>,
      enqueuedCount = 0\<rparr>"
  by (simp add: sample_monitor_def new_InMemoryDedupCache_def registerWorkerEndpoint_def
      initial_distributor_def)

theorem timestamp_normalisation_and_age_filter_witness:
  "activityMs (env_Date_parse (sample_env 10)) (TsNumber 1000000000001) = 1000000000001 \<and>
   activityMs (env_Date_parse (sample_env 10)) (TsNumber 1000000000000) = 1000000000000000 \<and>
   activityMs (env_Date_parse (sample_env 10)) (TsString ''2023-11-14T22:13:20.000Z'') = 1700000000000 \<and>
   activityMs (env_Date_parse (sample_env 10)) (TsString ''yesterday'') = 0 \<and>
   \<not> skipped 10 1700000010000 1700000000000 \<and>
   skipped 10 1700000010001 1700000000000 \<and>
   processActivity (sample_env 10) ''0xleader'' 1700000010001 1700000010001 1700000010001
      (sample_feed (Some ''0xABC'') (TsNumber 1700000000)) sample_monitor = sample_monitor \<and>
   processActivity (sample_env 10) ''0xleader'' 1700000010000 1700000010000 1700000010000
      (sample_feed (Some ''0xABC'') (TsString ''yesterday'')) sample_monitor = sample_monitor \<and>
   processActivity (sample_env 10) ''0xleader'' 1700000010000 1700000010000 1700000010000
      (sample_feed (Some ''0xABC'') TsOther) sample_monitor = sample_monitor \<and>
   enqueuedCount (processActivity (sample_env 10) ''0xleader'' 1700000010000 1700000010000 1700000010000
      (sample_feed (Some ''0xABC'') (TsNumber 1700000000)) sample_monitor) = 1 \<and>
   cache (activityDedupCache (processActivity (sample_env 10) ''0xleader'' 1700000010000 1700000010000
      1700000010000 (sample_feed (Some ''0xABC'') (TsNumber 1700000000)) sample_monitor))
     = [(''0xabc'', 1700000010000)]"
proof -
  note t = timestamp_normalisation_and_age_filter
  have a: "activityMs (env_Date_parse (sample_env 10)) (TsNumber 1000000000001) = 1000000000001"
    "activityMs (env_Date_parse (sample_env 10)) (TsNumber 1000000000000) = 1000000000000000"
    "activityMs (env_Date_parse (sample_env 10)) (TsString ''2023-11-14T22:13:20.000Z'') = 1700000000000"
    "activityMs (env_Date_parse (sample_env 10)) (TsString ''yesterday'') = 0"
    using t[of 1000000000001 "env_Date_parse (sample_env 10)" "''2023-11-14T22:13:20.000Z''"]
      t[of 1000000000000 "env_Date_parse (sample_env 10)" "''yesterday''"]
    by (simp_all add: sample_env_def)
  have b: "\<not> skipped 10 1700000010000 1700000000000" "skipped 10 1700000010001 1700000000000"
    using t[of _ _ _ 10 1700000010000 1700000000000] t[of _ _ _ 10 1700000010001 1700000000000]
    by simp_all
  have c: "processActivity (sample_env 10) ''0xleader'' 1700000010001 1700000010001 1700000010001
      (sample_feed (Some ''0xABC'') (TsNumber 1700000000)) sample_monitor = sample_monitor"
    "processActivity (sample_env 10) ''0xleader'' 1700000010000 1700000010000 1700000010000
      (sample_feed (Some ''0xABC'') (TsString ''yesterday'')) sample_monitor = sample_monitor"
    "processActivity (sample_env 10) ''0xleader'' 1700000010000 1700000010000 1700000010000
      (sample_feed (Some ''0xABC'') TsOther) sample_monitor = sample_monitor"
    by (rule processActivity_skipped,
        simp add: sample_env_def sample_feed_def activityMs_def skipped_def)+
  have d: "processActivity (sample_env 10) ''0xleader'' 1700000010000 1700000010000 1700000010000
      (sample_feed (Some ''0xABC'') (TsNumber 1700000000)) sample_monitor =
     \<lparr>activityDedupCache = \<lparr>cache = [(''0xabc'', 1700000010000)], ttlMs = 60000, maxEntries = 5000\<rparr>,
      distributorState = \<lparr>workerPorts = [\<lparr>id' = 1, endpoint = Worker 1\<rparr>], roundRobinIndex = 0,
         backlog = [],
         sent = [(Worker 1, ActivityMessage
            \<lparr>transactionHash = Some ''0xABC'', userAddress = ''0xleader'', conditionId = ''cond-1'',
             asset = ''asset-1'', side = Some ''BUY'', price = Some (1/2), size' = Some 10,
             usdcSize = Some 5, timestamp = 1700000000000, slug = None, eventSlug = None,
             detectedAt = Some 1700000010000\<rparr>)]\<rparr>,
      enqueuedCount = 1\<rparr>"
    unfolding sample_monitor_eq
    by (simp add: processActivity_def sample_env_def sample_feed_def activityMs_def skipped_def
        buildActivityDedupKey_def toLowerCase_sample checkAndRemember_def
        evictExpired_def Map_has_def publishActivityToWorkers_def pickWorker_def send_def Let_def)
  show ?thesis
    using a b c by (simp add: d)
qed

text \<open>
  Claim C9 as stated drops an activity with a parseable timestamp exactly when it is older
  than the threshold. The numeric timestamp 0 parses (to the epoch), and with a threshold of
  \<open>2 \<sqdot> 10\<^sup>9\<close> seconds its age at \<open>nowMs = 1.7 \<sqdot> 10\<^sup>1\<^sup>2\<close> is below the threshold; it is
  skipped all the same, while the timestamp 1 is published.
\<close>

theorem epoch_timestamp_dropped_counterexample:
  "activityMs (env_Date_parse (sample_env 2000000000)) (TsNumber 0) = 0 \<and>
   \<not> (1700000000000 - activityMs (env_Date_parse (sample_env 2000000000)) (TsNumber 0)
        > TOO_OLD_SECONDS (sample_env 2000000000) * 1000) \<and>
   processActivity (sample_env 2000000000) ''0xleader'' 1700000000000 1700000000000 1700000000000
      (sample_feed (Some ''0xABC'') (TsNumber 0)) sample_monitor = sample_monitor \<and>
   enqueuedCount (processActivity (sample_env 2000000000) ''0xleader'' 1700000000000 1700000000000
      1700000000000 (sample_feed (Some ''0xABC'') (TsNumber 1)) sample_monitor) = 1"
  unfolding sample_monitor_eq
  by (simp add: processActivity_def sample_env_def sample_feed_def activityMs_def skipped_def
      buildActivityDedupKey_def toLowerCase_sample checkAndRemember_def
      evictExpired_def Map_has_def publishActivityToWorkers_def pickWorker_def send_def Let_def)

lemma buildActivityDedupKey_falsy:
  "falsy_hash (transactionHash a) \<Longrightarrow> buildActivityDedupKey ns a = compositeKey ns a"
  by (auto simp: falsy_hash_def buildActivityDedupKey_def)

lemma processActivity_cases:
  "processActivity env address nowMs detectedNow cacheNow activity st =
     (let ms = activityMs (env_Date_parse env) (timestamp activity);
          q = \<lparr>transactionHash = transactionHash activity, userAddress = address,
               conditionId = conditionId activity, asset = asset activity, side = side activity,
               price = price activity, size' = size' activity, usdcSize = usdcSize activity,
               timestamp = ms, slug = slug activity, eventSlug = eventSlug activity,
               detectedAt = Some detectedNow\<rparr>;
          r = checkAndRemember (buildActivityDedupKey (env_numToString env) q) cacheNow
                (activityDedupCache st)
      in if skipped (TOO_OLD_SECONDS env) nowMs ms then st
         else if fst r
           then st\<lparr>activityDedupCache := snd r,
                  distributorState := publishActivityToWorkers q (distributorState st),
                  enqueuedCount := enqueuedCount st + 1\<rparr>
           else st\<lparr>activityDedupCache := snd r\<rparr>)"
  by (auto simp: processActivity_def Let_def split: prod.splits bool.splits)

lemma key_falsy:
  assumes "falsy_hash h"
  shows "buildActivityDedupKey ns (b\<lparr>transactionHash := h\<rparr>) = compositeKey ns b"
proof -
  have "buildActivityDedupKey ns (b\<lparr>transactionHash := h\<rparr>) = compositeKey ns (b\<lparr>transactionHash := h\<rparr>)"
    using assms by (intro buildActivityDedupKey_falsy) simp
  also have "\<dots> = compositeKey ns b"
    by (simp add: compositeKey_def)
  finally show ?thesis .
qed

text \<open>
  Claim C10. For every falsy \<^verbatim>\<open>transactionHash\<close>, absent or the empty string,
  \<^verbatim>\<open>buildActivityDedupKey\<close> returns the composite key, which does not depend on the hash. So two
  activities that differ only in carrying one falsy hash or the other get the same key, and
  when the monitor has published the first, the second, met within the TTL, is not published.
\<close>

theorem falsy_hash_composite_key:
  assumes h1: "falsy_hash h1" and h2: "falsy_hash h2"
  shows "buildActivityDedupKey ns (a\<lparr>transactionHash := h1\<rparr>) = compositeKey ns a \<and>
    buildActivityDedupKey ns (a\<lparr>transactionHash := h1\<rparr>)
      = buildActivityDedupKey ns (a\<lparr>transactionHash := h2\<rparr>) \<and>
    (Map_ok (cache (activityDedupCache st)) \<and> 1 \<le> maxEntries (activityDedupCache st) \<and>
     enqueuedCount (processActivity env address n1 d1 c1 (fa\<lparr>transactionHash := h1\<rparr>) st)
       = enqueuedCount st + 1 \<and>
     c2 - c1 \<le> ttlMs (activityDedupCache st) \<longrightarrow>
       distributorState (processActivity env address n2 d2 c2 (fa\<lparr>transactionHash := h2\<rparr>)
           (processActivity env address n1 d1 c1 (fa\<lparr>transactionHash := h1\<rparr>) st))
         = distributorState (processActivity env address n1 d1 c1 (fa\<lparr>transactionHash := h1\<rparr>) st) \<and>
       enqueuedCount (processActivity env address n2 d2 c2 (fa\<lparr>transactionHash := h2\<rparr>)
           (processActivity env address n1 d1 c1 (fa\<lparr>transactionHash := h1\<rparr>) st))
         = enqueuedCount st + 1)"
proof -
  have suppressed: "distributorState (processActivity env address n2 d2 c2 (fa\<lparr>transactionHash := h2\<rparr>)
           (processActivity env address n1 d1 c1 (fa\<lparr>transactionHash := h1\<rparr>) st))
         = distributorState (processActivity env address n1 d1 c1 (fa\<lparr>transactionHash := h1\<rparr>) st) \<and>
       enqueuedCount (processActivity env address n2 d2 c2 (fa\<lparr>transactionHash := h2\<rparr>)
           (processActivity env address n1 d1 c1 (fa\<lparr>transactionHash := h1\<rparr>) st))
         = enqueuedCount st + 1"
    if ok: "Map_ok (cache (activityDedupCache st))" and room: "1 \<le> maxEntries (activityDedupCache st)"
      and first: "enqueuedCount (processActivity env address n1 d1 c1 (fa\<lparr>transactionHash := h1\<rparr>) st)
        = enqueuedCount st + 1"
      and within: "c2 - c1 \<le> ttlMs (activityDedupCache st)"
  proof -
    let ?ms = "activityMs (env_Date_parse env) (timestamp fa)"
    let ?q = "\<lambda>h d. \<lparr>transactionHash = h, userAddress = address,
        conditionId = conditionId fa, asset = asset fa, side = side fa,
        price = price fa, size' = size' fa, usdcSize = usdcSize fa,
        timestamp = ?ms, slug = slug fa, eventSlug = eventSlug fa, detectedAt = Some d\<rparr>"
    let ?K = "compositeKey (env_numToString env) (?q None d1)"
    let ?st1 = "processActivity env address n1 d1 c1 (fa\<lparr>transactionHash := h1\<rparr>) st"
    have k1: "buildActivityDedupKey (env_numToString env) (?q h1 d1) = ?K"
      using key_falsy[OF h1, of "env_numToString env" "?q None d1"] by simp
    have k2: "buildActivityDedupKey (env_numToString env) (?q h2 d2) = ?K"
      using key_falsy[OF h2, of "env_numToString env" "?q None d2"] by (simp add: compositeKey_def)
    have new: "fst (checkAndRemember ?K c1 (activityDedupCache st))"
      and c1: "activityDedupCache ?st1 = snd (checkAndRemember ?K c1 (activityDedupCache st))"
      using first by (auto simp: processActivity_cases Let_def k1 split: if_splits)
    have rem: "remembered ?K c1 0 (activityDedupCache ?st1)"
      unfolding c1 using ok room new by (rule remembered_first)
    have ttl: "ttlMs (activityDedupCache ?st1) = ttlMs (activityDedupCache st)"
      unfolding c1 using checkAndRemember_params by simp
    have hit: "\<not> fst (checkAndRemember ?K c2 (activityDedupCache ?st1))"
      using rem within ttl by (intro remembered_hit[where n = 0 and ?t1.0 = c1]) simp_all
    show ?thesis
      using hit first
      by (simp add: processActivity_cases[of env address n2 d2 c2 _ ?st1] Let_def k2)
  qed
  from key_falsy[OF h1, of ns a] key_falsy[OF h2, of ns a] suppressed show ?thesis
    by simp
qed


theorem falsy_hash_composite_key_witness:
  "falsy_hash (Some []) \<and> falsy_hash None \<and>
   buildActivityDedupKey (env_numToString (sample_env 10))
      ((sample_trade ''BUY'' 10 5 (1/2))\<lparr>transactionHash := Some []\<rparr>)
     = ''0xleader:cond-1:1700000000000:BUY:5:0.5'' \<and>
   buildActivityDedupKey (env_numToString (sample_env 10))
      ((sample_trade ''BUY'' 10 5 (1/2))\<lparr>transactionHash := None\<rparr>)
     = ''0xleader:cond-1:1700000000000:BUY:5:0.5'' \<and>
   Map_ok (cache (activityDedupCache sample_monitor)) \<and>
   1 \<le> maxEntries (activityDedupCache sample_monitor) \<and>
   enqueuedCount (processActivity (sample_env 10) ''0xleader'' 1700000001000 1700000001000 1700000001000
      ((sample_feed None (TsNumber 1700000000))\<lparr>transactionHash := Some []\<rparr>) sample_monitor)
     = enqueuedCount sample_monitor + 1 \<and>
   (1700000001005::real) - 1700000001000 \<le> ttlMs (activityDedupCache sample_monitor) \<and>
   enqueuedCount (processActivity (sample_env 10) ''0xleader'' 1700000001005 1700000001005 1700000001005
      ((sample_feed None (TsNumber 1700000000))\<lparr>transactionHash := None\<rparr>)
      (processActivity (sample_env 10) ''0xleader'' 1700000001000 1700000001000 1700000001000
        ((sample_feed None (TsNumber 1700000000))\<lparr>transactionHash := Some []\<rparr>) sample_monitor)) = 1 \<and>
   length (sent (distributorState
     (processActivity (sample_env 10) ''0xleader'' 1700000001005 1700000001005 1700000001005
      ((sample_feed None (TsNumber 1700000000))\<lparr>transactionHash := None\<rparr>)
      (processActivity (sample_env 10) ''0xleader'' 1700000001000 1700000001000 1700000001000
        ((sample_feed None (TsNumber 1700000000))\<lparr>transactionHash := Some []\<rparr>) sample_monitor)))) = 1"
proof -
  have f: "falsy_hash (Some [])" "falsy_hash None"
    by (simp_all add: falsy_hash_def)
  note t = falsy_hash_composite_key[OF f, of "env_numToString (sample_env 10)"
      "sample_trade ''BUY'' 10 5 (1/2)" sample_monitor "sample_env 10" "''0xleader''"
      1700000001000 1700000001000 1700000001000 "sample_feed None (TsNumber 1700000000)"
      1700000001005 1700000001005 1700000001005]
  have k: "compositeKey (env_numToString (sample_env 10)) (sample_trade ''BUY'' 10 5 (1/2))
      = ''0xleader:cond-1:1700000000000:BUY:5:0.5''"
    by (simp add: compositeKey_def sample_env_def sample_trade_def)
  have st1: "processActivity (sample_env 10) ''0xleader'' 1700000001000 1700000001000 1700000001000
        ((sample_feed None (TsNumber 1700000000))\<lparr>transactionHash := Some []\<rparr>) sample_monitor =
     \<lparr>activityDedupCache = \<lparr>cache = [(''0xleader:cond-1:1700000000000:BUY:5:0.5'', 1700000001000)],
         ttlMs = 60000, maxEntries = 5000\<rparr>,
      distributorState = \<lparr>workerPorts = [\<lparr>id' = 1, endpoint = Worker 1\<rparr>], roundRobinIndex = 0,
         backlog = [],
         sent = [(Worker 1, ActivityMessage
            \<lparr>transactionHash = Some [], userAddress = ''0xleader'', conditionId = ''cond-1'',
             asset = ''asset-1'', side = Some ''BUY'', price = Some (1/2), size' = Some 10,
             usdcSize = Some 5, timestamp = 1700000000000, slug = None, eventSlug = None,
             detectedAt = Some 1700000001000\<rparr>)]\<rparr>,
      enqueuedCount = 1\<rparr>"
    unfolding sample_monitor_eq
    by (simp add: processActivity_def sample_env_def sample_feed_def activityMs_def skipped_def
        buildActivityDedupKey_def compositeKey_def checkAndRemember_def
        evictExpired_def Map_has_def publishActivityToWorkers_def pickWorker_def send_def Let_def)
  have pre: "Map_ok (cache (activityDedupCache sample_monitor))"
    "1 \<le> maxEntries (activityDedupCache sample_monitor)"
    "(1700000001005::real) - 1700000001000 \<le> ttlMs (activityDedupCache sample_monitor)"
    "enqueuedCount sample_monitor = 0"
    by (simp_all add: sample_monitor_eq Map_ok_def)
  let ?st1 = "processActivity (sample_env 10) ''0xleader'' 1700000001000 1700000001000 1700000001000
        ((sample_feed None (TsNumber 1700000000))\<lparr>transactionHash := Some []\<rparr>) sample_monitor"
  let ?st2 = "processActivity (sample_env 10) ''0xleader'' 1700000001005 1700000001005 1700000001005
      ((sample_feed None (TsNumber 1700000000))\<lparr>transactionHash := None\<rparr>) ?st1"
  have first: "enqueuedCount ?st1 = enqueuedCount sample_monitor + 1"
    by (simp only: st1 pre(4)) simp
  from t have k1: "buildActivityDedupKey (env_numToString (sample_env 10))
      ((sample_trade ''BUY'' 10 5 (1/2))\<lparr>transactionHash := Some []\<rparr>)
     = compositeKey (env_numToString (sample_env 10)) (sample_trade ''BUY'' 10 5 (1/2))"
    by (rule conjunct1)
  from t have k2: "buildActivityDedupKey (env_numToString (sample_env 10))
      ((sample_trade ''BUY'' 10 5 (1/2))\<lparr>transactionHash := Some []\<rparr>)
     = buildActivityDedupKey (env_numToString (sample_env 10))
      ((sample_trade ''BUY'' 10 5 (1/2))\<lparr>transactionHash := None\<rparr>)"
    by (rule conjunct1[OF conjunct2])
  from t pre(1-3) first have second: "distributorState ?st2 = distributorState ?st1 \<and>
      enqueuedCount ?st2 = enqueuedCount sample_monitor + 1"
    by blast
  then have cnt: "enqueuedCount ?st2 = 1"
    using pre(4) by simp
  have "length (sent (distributorState ?st1)) = 1"
    by (simp only: st1) simp
  with second have len: "length (sent (distributorState ?st2)) = 1"
    by simp
  show ?thesis
    using f k1[unfolded k] k2[unfolded k1[unfolded k], symmetric] pre(1-3) first cnt len
    by (intro conjI)
qed

end
